theory Spec2Isabelle
  imports Main "HOL-Library.Multiset" "HOL-Library.Word"
begin

section \<open>ChatBuilder: the chat widget's synchronisation logic\<close>

text \<open>
  A shallow embedding of \<^verbatim>\<open>src/components/ChatBuilder.tsx\<close>. The React component is
  modelled as a record of its state fields and of the instance field \<^verbatim>\<open>this.channel\<close>,
  together with a trace of the effects it issues (host-page notifications, channel
  operations, backend requests, warnings, scroll requests), in the order of issue.

  Conventions of the model:
  \<^item> every handler runs atomically: \<^verbatim>\<open>setState\<close> takes effect at once and its callback
    runs right after it, and nothing interleaves with an \<^verbatim>\<open>await\<close>; the one suspension a
    claim is about, the \<^verbatim>\<open>await\<close> of \<open>handleSendMessage\<close>, has a definition of its own
    (\<open>handleSendMessage_suspended\<close>);
  \<^item> a rejected promise is the value \<open>Throw\<close>, carrying the state reached so far;
  \<^item> the helpers imported from \<^verbatim>\<open>../helpers/utils\<close> and \<^verbatim>\<open>../helpers/visibility\<close> and the
    backend of \<^verbatim>\<open>../helpers/api\<close> are parameters (records \<open>helpers\<close> and \<open>world\<close>);
  \<^item> debug-level logging is left out of the trace; warnings and errors are in it.

  Rendering, the presence list of available agents, the notification and branding flags and
  the unmounting of the component are not part of the model.
\<close>

subsection \<open>JavaScript values\<close>

text \<open>An optional string field: absent, \<^verbatim>\<open>null\<close>, or a string. Equality of the datatype is
  JavaScript's \<^verbatim>\<open>===\<close> on such values; \<open>truthy\<close> is what \<^verbatim>\<open>!!x\<close> computes.

  Identifiers, timestamps and addresses are only compared and tested for emptiness, and are
  strings over \<open>char\<close>. A message body is read character by character (by \<^verbatim>\<open>trim\<close>), so
  bodies, and the greeting that becomes one, are strings of UTF-16 code units, as every
  JavaScript string is.\<close>

datatype 'c jstext = Undefined | Null | Str "'c list"

type_synonym jsstr = "char jstext"

type_synonym code_unit = "16 word"

type_synonym jsbody = "code_unit jstext"

fun truthy :: "'c jstext \<Rightarrow> bool" where
  "truthy (Str s) = (s \<noteq> [])"
| "truthy Undefined = False"
| "truthy Null = False"

text \<open>What a template literal \<^verbatim>\<open>`${x}`\<close> prints.\<close>

fun template :: "jsstr \<Rightarrow> string" where
  "template (Str s) = s"
| "template Undefined = ''undefined''"
| "template Null = ''null''"

datatype jsarr = NoArray | NullArray | Arr "string list"

subsection \<open>Data model\<close>

record message =
  msg_type :: jsstr
  customer_id :: jsstr
  user_id :: jsstr
  body :: jsbody
  file_ids :: jsarr
  sent_at :: jsstr
  created_at :: jsstr
  seen_at :: jsstr

record metadata =
  email :: jsstr
  host :: jsstr
  external_id :: jsstr

record conversation =
  conv_id :: jsstr
  conv_messages :: "message list option"

record config =
  accountId :: string
  baseUrl :: jsstr
  greeting :: jsbody
  customer :: "metadata option"

record chan =
  topic :: string
  join_customer_id :: jsstr

datatype api_error = ApiError string

datatype api_call =
    IsValidCustomer string
  | FindCustomerByExternalId jsstr jsstr jsstr
  | FetchCustomerConversations jsstr
  | UpdateCustomerMetadata jsstr "metadata option"
  | CreateNewCustomer "metadata option"
  | CreateNewConversation jsstr

datatype payload =
    PEmpty
  | PNone
  | PCustomerId jsstr
  | PJoin jsstr jsstr
  | PMessage message
  | PUnseen message
  | PShout message
  | PSent message jsstr

datatype effect =
    Emit string payload
  | ChannelLeave chan
  | ChannelJoin chan
  | ChannelPush chan string payload
  | LobbyJoin string
  | Api api_call
  | Log string string
  | ScrollIntoView

record state =
  messages :: "message list"
  customerId :: jsstr
  conversationId :: jsstr
  isSending :: bool
  isOpen :: bool
  isTransitioning :: bool
  isGameMode :: bool
  channel :: "chan option"
  effects :: "effect list"

text \<open>The state the constructor builds; no channel is joined and nothing was issued.\<close>

definition initial_state :: state where
  "initial_state =
     \<lparr>messages = [], customerId = Null, conversationId = Null, isSending = False,
      isOpen = False, isTransitioning = False, isGameMode = False,
      channel = None, effects = []\<rparr>"

text \<open>The imported helpers, as parameters, and two parts of the JavaScript engine.
  \<open>parseDate\<close> stands for \<^verbatim>\<open>+new Date(x)\<close>: the milliseconds of a timestamp that parses, and
  \<open>None\<close> for \<^verbatim>\<open>NaN\<close>, which an absent or malformed timestamp gives. \<open>engineOrder\<close> is the
  order in which the engine's \<^verbatim>\<open>sort\<close> leaves an array whose comparator is not consistent,
  which the language standard leaves to the engine.\<close>

record helpers =
  areDatesEqual :: "jsstr \<Rightarrow> jsstr \<Rightarrow> bool"
  isValidUuid :: "string \<Rightarrow> bool"
  shouldActivateGameMode :: "jsbody \<Rightarrow> bool"
  parseDate :: "jsstr \<Rightarrow> int option"
  engineOrder :: "message list \<Rightarrow> message list"

text \<open>What the surroundings answer during one handler: whether the page is hidden
  (\<^verbatim>\<open>isWindowHidden(document)\<close>), the readings of \<^verbatim>\<open>new Date().toISOString()\<close> (\<open>now w i\<close> is
  the \<open>i\<close>-th reading; inside the \<^verbatim>\<open>map\<close> of \<open>markMessagesAsSeen\<close> the reading taken at
  position \<open>i\<close>), and the backend's replies (\<open>Inl\<close> is a rejected request). The number given to
  \<open>createNewCustomer\<close> is the attempt, as the retry may be answered differently.\<close>

record world =
  hidden :: bool
  now :: "nat \<Rightarrow> string"
  api_isValidCustomer :: "string \<Rightarrow> api_error + bool"
  api_findCustomerByExternalId :: "jsstr \<Rightarrow> jsstr \<Rightarrow> jsstr \<Rightarrow> api_error + jsstr"
  api_fetchCustomerConversations :: "jsstr \<Rightarrow> api_error + conversation list option"
  api_updateCustomerMetadata :: "jsstr \<Rightarrow> metadata option \<Rightarrow> api_error + jsstr"
  api_createNewCustomer :: "nat \<Rightarrow> metadata option \<Rightarrow> api_error + jsstr"
  api_createNewConversation :: "jsstr \<Rightarrow> api_error + jsstr"

datatype 'a result = Return 'a state | Throw api_error state

fun state_of :: "'a result \<Rightarrow> state" where
  "state_of (Return _ st) = st"
| "state_of (Throw _ st) = st"

subsection \<open>Emitting and tracing\<close>

definition issue :: "effect list \<Rightarrow> state \<Rightarrow> state" where
  "issue es st = st\<lparr>effects := effects st @ es\<rparr>"

definition emit :: "string \<Rightarrow> payload \<Rightarrow> state \<Rightarrow> state" where
  "emit event p st = issue [Emit event p] st"

definition scrollIntoView :: "state \<Rightarrow> state" where
  "scrollIntoView st = issue [ScrollIntoView] st"

definition emitUnseenMessage :: "message \<Rightarrow> state \<Rightarrow> state" where
  "emitUnseenMessage m st = emit ''messages:unseen'' (PUnseen m) st"

subsection \<open>Greeting\<close>

definition getDefaultGreeting :: "config \<Rightarrow> world \<Rightarrow> message list" where
  "getDefaultGreeting cfg w =
     (if \<not> truthy (greeting cfg) then []
      else [\<lparr>msg_type = Str ''bot'', customer_id = Str ''bot'', user_id = Undefined,
             body = greeting cfg, file_ids = NoArray, sent_at = Undefined,
             created_at = Str (now w 0), seen_at = Str (now w 1)\<rparr>])"

subsection \<open>Identity\<close>

definition isValidCustomer :: "helpers \<Rightarrow> world \<Rightarrow> jsstr \<Rightarrow> state \<Rightarrow> bool \<times> state" where
  "isValidCustomer h w cid st =
     (case cid of
        Str s \<Rightarrow>
          if s = [] then (False, st)
          else if \<not> isValidUuid h s then (False, st)
          else
            (let st1 = issue [Api (IsValidCustomer s)] st in
             case api_isValidCustomer w s of
               Inr b \<Rightarrow> (b, st1)
             | Inl err \<Rightarrow>
                 (True, issue [Log ''warn'' ''Failed to validate customer ID.'',
                               Log ''warn'' ''You might be on an older version of Papercups.'']
                          st1))
      | _ \<Rightarrow> (False, st))"

definition checkForExistingCustomer ::
  "world \<Rightarrow> metadata option \<Rightarrow> jsstr \<Rightarrow> state \<Rightarrow> jsstr result" where
  "checkForExistingCustomer w md defaultCustomerId st =
     (case md of
        None \<Rightarrow> Return defaultCustomerId (st\<lparr>customerId := defaultCustomerId\<rparr>)
      | Some m \<Rightarrow>
          if \<not> truthy (external_id m)
          then Return defaultCustomerId (st\<lparr>customerId := defaultCustomerId\<rparr>)
          else
            (let st1 = issue [Api (FindCustomerByExternalId (external_id m) (email m) (host m))] st in
             case api_findCustomerByExternalId w (external_id m) (email m) (host m) of
               Inl err \<Rightarrow> Throw err st1
             | Inr matchingCustomerId \<Rightarrow>
                 if \<not> truthy matchingCustomerId
                 then Return Null (st1\<lparr>customerId := Null\<rparr>)
                 else if matchingCustomerId = defaultCustomerId
                 then Return defaultCustomerId (st1\<lparr>customerId := defaultCustomerId\<rparr>)
                 else Return matchingCustomerId
                        (emit ''customer:updated'' (PCustomerId matchingCustomerId)
                           (st1\<lparr>customerId := matchingCustomerId\<rparr>))))"

subsection \<open>Conversation channel\<close>

definition joinConversationChannel :: "jsstr \<Rightarrow> jsstr \<Rightarrow> state \<Rightarrow> state" where
  "joinConversationChannel conversationId' customerId' st =
     (let st1 = (case channel st of Some c \<Rightarrow> issue [ChannelLeave c] st | None \<Rightarrow> st);
          c' = \<lparr>topic = ''conversation:'' @ template conversationId',
                join_customer_id = customerId'\<rparr>;
          st2 = issue [ChannelJoin c'] (st1\<lparr>channel := Some c'\<rparr>);
          st3 = emit ''conversation:join'' (PJoin conversationId' customerId') st2
      in scrollIntoView st3)"

subsection \<open>Seen state\<close>

definition shouldMarkAsSeen :: "world \<Rightarrow> state \<Rightarrow> message \<Rightarrow> bool" where
  "shouldMarkAsSeen w st m =
     (let isAgentMessage = truthy (user_id m) in
      if truthy (seen_at m) \<or> hidden w then False
      else isAgentMessage \<and> isOpen st)"

text \<open>The \<^verbatim>\<open>map\<close> of \<open>markMessagesAsSeen\<close>, with the position made explicit since every stamped
  entry reads the clock anew.\<close>

fun stamp_seen :: "(nat \<Rightarrow> string) \<Rightarrow> nat \<Rightarrow> message list \<Rightarrow> message list" where
  "stamp_seen clock i [] = []"
| "stamp_seen clock i (m # ms) =
     (if truthy (seen_at m) then m else m\<lparr>seen_at := Str (clock i)\<rparr>)
       # stamp_seen clock (Suc i) ms"

definition markMessagesAsSeen :: "world \<Rightarrow> state \<Rightarrow> state" where
  "markMessagesAsSeen w st =
     (case channel st of
        None \<Rightarrow> st
      | Some c \<Rightarrow>
          if \<not> truthy (customerId st) \<or> \<not> truthy (conversationId st) then st
          else
            (let st1 = issue [ChannelPush c ''messages:seen'' PEmpty] st;
                 st2 = emit ''messages:seen'' PEmpty st1
             in st2\<lparr>messages := stamp_seen (now w) 0 (messages st)\<rparr>))"

definition handleVisibilityChange :: "world \<Rightarrow> state \<Rightarrow> state" where
  "handleVisibilityChange w st =
     (if hidden w then st
      else if list_ex (shouldMarkAsSeen w st) (messages st) then markMessagesAsSeen w st
      else st)"

definition handleToggleDisplay :: "world \<Rightarrow> bool \<Rightarrow> state \<Rightarrow> state" where
  "handleToggleDisplay w isOpen' st =
     (let st1 = handleVisibilityChange w (st\<lparr>isOpen := isOpen', isTransitioning := False\<rparr>)
      in if isOpen' then scrollIntoView st1 else st1)"

subsection \<open>Inbound reconciliation\<close>

text \<open>The predicate of the \<^verbatim>\<open>find\<close> in \<open>handleNewMessage\<close>: an entry still lacking
  \<^verbatim>\<open>created_at\<close>, date-equal in \<^verbatim>\<open>sent_at\<close>, with the same body or both bodies falsy.\<close>

definition is_unsent :: "helpers \<Rightarrow> message \<Rightarrow> message \<Rightarrow> bool" where
  "is_unsent h message m =
     (\<not> truthy (created_at m) \<and> areDatesEqual h (sent_at m) (sent_at message) \<and>
      (body m = body message \<or> (\<not> truthy (body m) \<and> \<not> truthy (body message))))"

definition reconcile :: "helpers \<Rightarrow> message \<Rightarrow> message list \<Rightarrow> message list" where
  "reconcile h message msgs =
     (case find (is_unsent h message) msgs of
        Some unsent \<Rightarrow> map (\<lambda>m. if sent_at m = sent_at unsent then message else m) msgs
      | None \<Rightarrow> msgs @ [message])"

definition handleNewMessage :: "helpers \<Rightarrow> world \<Rightarrow> message \<Rightarrow> state \<Rightarrow> state" where
  "handleNewMessage h w message st =
     (let st1 = emit ''message:received'' (PMessage message) st;
          unsent = find (is_unsent h message) (messages st1);
          st2 = scrollIntoView (st1\<lparr>messages := reconcile h message (messages st1)\<rparr>)
      in if shouldMarkAsSeen w st2 message then markMessagesAsSeen w st2
         else if unsent = None then emitUnseenMessage message st2
         else st2)"

text \<open>The handler of the channel's \<^verbatim>\<open>shout\<close> event.\<close>

definition onShout :: "helpers \<Rightarrow> world \<Rightarrow> message \<Rightarrow> state \<Rightarrow> state" where
  "onShout h w message st = handleNewMessage h w message (st\<lparr>isGameMode := False\<rparr>)"

subsection \<open>Customers and conversations\<close>

definition createOrUpdateCustomer ::
  "config \<Rightarrow> world \<Rightarrow> jsstr \<Rightarrow> jsstr \<Rightarrow> state \<Rightarrow> jsstr result" where
  "createOrUpdateCustomer cfg w existingCustomerId email' st =
     (let metadata' =
            (if truthy email'
             then Some (case customer cfg of
                          None \<Rightarrow> \<lparr>email = email', host = Undefined, external_id = Undefined\<rparr>
                        | Some c \<Rightarrow> c\<lparr>email := email'\<rparr>)
             else customer cfg);
          st1 = (if truthy existingCustomerId
                 then issue [Api (UpdateCustomerMetadata existingCustomerId metadata')] st
                 else issue [Api (CreateNewCustomer metadata')] st);
          reply = (if truthy existingCustomerId
                   then api_updateCustomerMetadata w existingCustomerId metadata'
                   else api_createNewCustomer w 0 metadata')
      in case reply of
           Inr cid \<Rightarrow>
             Return cid (if \<not> truthy existingCustomerId
                         then emit ''customer:created'' (PCustomerId cid) st1 else st1)
         | Inl err \<Rightarrow>
             (let st2 = issue [Log ''error'' ''Failed to update or create customer:'',
                               Log ''error'' ''Retrying...'',
                               Api (CreateNewCustomer metadata')] st1
              in case api_createNewCustomer w 1 metadata' of
                   Inr cid \<Rightarrow> Return cid (emit ''customer:created'' (PCustomerId cid) st2)
                 | Inl err' \<Rightarrow> Throw err' st2))"

text \<open>The reply of the update is not used, and its failure is caught and logged at debug
  level.\<close>

definition updateExistingCustomer :: "world \<Rightarrow> jsstr \<Rightarrow> metadata option \<Rightarrow> state \<Rightarrow> state" where
  "updateExistingCustomer w customerId' md st =
     (case md of
        None \<Rightarrow> st
      | Some m \<Rightarrow> issue [Api (UpdateCustomerMetadata customerId' (Some m))] st)"

definition initializeNewConversation ::
  "config \<Rightarrow> world \<Rightarrow> jsstr \<Rightarrow> jsstr \<Rightarrow> state \<Rightarrow> (jsstr \<times> jsstr) result" where
  "initializeNewConversation cfg w existingCustomerId email' st =
     (case createOrUpdateCustomer cfg w existingCustomerId email' st of
        Throw err st1 \<Rightarrow> Throw err st1
      | Return customerId' st1 \<Rightarrow>
          (let st2 = issue [Api (CreateNewConversation customerId')] st1 in
           case api_createNewConversation w customerId' of
             Inl err \<Rightarrow> Throw err st2
           | Inr conversationId' \<Rightarrow>
               Return (customerId', conversationId')
                 (joinConversationChannel conversationId' customerId'
                    (st2\<lparr>customerId := customerId', conversationId := conversationId'\<rparr>))))"

definition listenForNewConversations :: "jsstr \<Rightarrow> state \<Rightarrow> state" where
  "listenForNewConversations customerId' st =
     issue [LobbyJoin (''conversation:lobby:'' @ template customerId')] st"

text \<open>The filter of \<open>fetchLatestConversation\<close> for unseen agent messages.\<close>

definition unseen_agent :: "message \<Rightarrow> bool" where
  "unseen_agent m = (\<not> truthy (seen_at m) \<and> truthy (user_id m))"

text \<open>\<^verbatim>\<open>messages.sort\<close> with the comparator \<^verbatim>\<open>+new Date(a.created_at) - +new Date(b.created_at)\<close>.
  The comparator's result is the difference of the two dates, and \<^verbatim>\<open>NaN\<close> as soon as one of
  them does not parse; \<^verbatim>\<open>sort\<close> takes \<^verbatim>\<open>NaN\<close> for \<open>0\<close>, that is for equal.
  \<^item> When every date parses, the sort is the stable ascending sort on the date, as \<open>sort_key\<close>
    is.
  \<^item> When some date does not parse and the dates that parse are all the same, every
    comparison is \<open>0\<close> and the stable sort leaves the array as it is.
  \<^item> Otherwise the comparator is not consistent (an undated message equals two messages of
    different dates) and the order is the engine's.\<close>

definition created :: "helpers \<Rightarrow> message \<Rightarrow> int" where
  "created h m = (case parseDate h (created_at m) of Some d \<Rightarrow> d | None \<Rightarrow> 0)"

definition all_parse :: "helpers \<Rightarrow> message list \<Rightarrow> bool" where
  "all_parse h msgs = list_all (\<lambda>m. parseDate h (created_at m) \<noteq> None) msgs"

definition all_compare_equal :: "helpers \<Rightarrow> message list \<Rightarrow> bool" where
  "all_compare_equal h msgs =
     list_all (\<lambda>a. list_all (\<lambda>b.
       case (parseDate h (created_at a), parseDate h (created_at b)) of
         (Some x, Some y) \<Rightarrow> x - y = 0
       | _ \<Rightarrow> True) msgs) msgs"

definition sortMessages :: "helpers \<Rightarrow> message list \<Rightarrow> message list" where
  "sortMessages h msgs =
     (if all_parse h msgs then sort_key (created h) msgs
      else if all_compare_equal h msgs then msgs
      else engineOrder h msgs)"

text \<open>An error of the fetch is caught and logged at debug level: the handler returns with the
  state reached.\<close>

definition fetchLatestConversation ::
  "config \<Rightarrow> helpers \<Rightarrow> world \<Rightarrow> jsstr \<Rightarrow> metadata option \<Rightarrow> state \<Rightarrow> unit result" where
  "fetchLatestConversation cfg h w cachedCustomerId md st =
     (case checkForExistingCustomer w md cachedCustomerId st of
        Throw err st1 \<Rightarrow> Throw err st1
      | Return customerId' st1 \<Rightarrow>
          if \<not> truthy customerId'
          then Return () (st1\<lparr>messages := getDefaultGreeting cfg w\<rparr>)
          else
            (let st2 = issue [Api (FetchCustomerConversations customerId')] st1;
                 waiting = Return () (listenForNewConversations customerId'
                                        (st2\<lparr>messages := getDefaultGreeting cfg w\<rparr>))
             in case api_fetchCustomerConversations w customerId' of
                  Inl err \<Rightarrow> Return () st2
                | Inr None \<Rightarrow> waiting
                | Inr (Some []) \<Rightarrow> waiting
                | Inr (Some (latest # others)) \<Rightarrow>
                    (let conversationId' = conv_id latest;
                         msgs = (case conv_messages latest of None \<Rightarrow> [] | Some ms \<Rightarrow> ms);
                         formattedMessages = sortMessages h msgs;
                         st3 = st2\<lparr>conversationId := conversationId',
                                  messages := getDefaultGreeting cfg w @ formattedMessages\<rparr>;
                         st4 = joinConversationChannel conversationId' customerId' st3;
                         st5 = updateExistingCustomer w customerId' md st4
                     in case filter unseen_agent formattedMessages of
                          [] \<Rightarrow> Return () st5
                        | firstUnseenMessage # rest \<Rightarrow>
                            Return () (emitUnseenMessage firstUnseenMessage st5))))"

subsection \<open>Optimistic send\<close>

text \<open>\<^verbatim>\<open>String.prototype.trim\<close> strips white space and line terminators from both ends: tab,
  line feed, vertical tab, form feed, carriage return, space, no-break space, U+1680,
  U+2000 to U+200A, U+2028, U+2029, U+202F, U+205F, U+3000 and U+FEFF. Each is one code
  unit.\<close>

definition is_whitespace :: "code_unit \<Rightarrow> bool" where
  "is_whitespace u =
     (u \<in> {0x0009, 0x000A, 0x000B, 0x000C, 0x000D, 0x0020, 0x00A0, 0x1680, 0x2028, 0x2029,
            0x202F, 0x205F, 0x3000, 0xFEFF} \<or>
      (0x2000 \<le> u \<and> u \<le> 0x200A))"

definition trim :: "code_unit list \<Rightarrow> code_unit list" where
  "trim s = rev (dropWhile is_whitespace (rev (dropWhile is_whitespace s)))"

definition isMissingBody :: "jsbody \<Rightarrow> bool" where
  "isMissingBody b = (case b of Str s \<Rightarrow> s = [] \<or> length (trim s) = 0 | _ \<Rightarrow> True)"

definition isMissingAttachments :: "jsarr \<Rightarrow> bool" where
  "isMissingAttachments a = (case a of Arr fs \<Rightarrow> length fs = 0 | _ \<Rightarrow> True)"

definition handleSendMessage ::
  "config \<Rightarrow> helpers \<Rightarrow> world \<Rightarrow> message \<Rightarrow> jsstr \<Rightarrow> state \<Rightarrow> unit result" where
  "handleSendMessage cfg h w message email' st =
     (let customerId' = customerId st;
          conversationId' = conversationId st;
          shouldSkipSending = (isMissingBody (body message) \<and> isMissingAttachments (file_ids message))
      in if isSending st \<or> shouldSkipSending then Return () st
         else if shouldActivateGameMode h (body message) then Return () (st\<lparr>isGameMode := True\<rparr>)
         else
           (let sentAt = Str (now w 0);
                payload = message\<lparr>customer_id := customerId', msg_type := Str ''customer'',
                                  sent_at := sentAt\<rparr>;
                st1 = scrollIntoView (st\<lparr>messages := messages st @ [payload]\<rparr>);
                started = (if \<not> truthy customerId' \<or> \<not> truthy conversationId'
                           then initializeNewConversation cfg w customerId' email' st1
                           else Return (customerId', conversationId') st1)
            in case started of
                 Throw err st2 \<Rightarrow> Throw err st2
               | Return ids st2 \<Rightarrow>
                   (case channel st2 of
                      None \<Rightarrow> Return () st2
                    | Some c \<Rightarrow>
                        Return ()
                          (emit ''message:sent''
                             (PSent (message\<lparr>msg_type := Str ''customer'', sent_at := sentAt,
                                              customer_id := customerId st2\<rparr>)
                                    (conversationId st2))
                             (issue [ChannelPush c ''shout''
                                       (PShout (message\<lparr>customer_id := customerId st2,
                                                         sent_at := sentAt\<rparr>))] st2)))))"

text \<open>A send in flight. \<open>handleSendMessage\<close> suspends only at the \<^verbatim>\<open>await\<close> of
  \<open>initializeNewConversation\<close>, which it reaches when the draft is not skipped, is not the
  game-mode phrase, and the customer or the conversation is missing; the handler then
  waits for the reply to the first backend request of \<open>createOrUpdateCustomer\<close>. This is
  the state at that point, in which another handler can run; \<open>None\<close> when the send does not
  get there.\<close>

definition handleSendMessage_suspended ::
  "config \<Rightarrow> helpers \<Rightarrow> world \<Rightarrow> message \<Rightarrow> jsstr \<Rightarrow> state \<Rightarrow> state option" where
  "handleSendMessage_suspended cfg h w message email' st =
     (let customerId' = customerId st;
          conversationId' = conversationId st;
          shouldSkipSending = (isMissingBody (body message) \<and> isMissingAttachments (file_ids message))
      in if isSending st \<or> shouldSkipSending then None
         else if shouldActivateGameMode h (body message) then None
         else
           (let sentAt = Str (now w 0);
                payload = message\<lparr>customer_id := customerId', msg_type := Str ''customer'',
                                  sent_at := sentAt\<rparr>;
                st1 = scrollIntoView (st\<lparr>messages := messages st @ [payload]\<rparr>);
                metadata' =
                  (if truthy email'
                   then Some (case customer cfg of
                                None \<Rightarrow> \<lparr>email = email', host = Undefined, external_id = Undefined\<rparr>
                              | Some c \<Rightarrow> c\<lparr>email := email'\<rparr>)
                   else customer cfg)
            in if \<not> truthy customerId' \<or> \<not> truthy conversationId'
               then Some (if truthy customerId'
                          then issue [Api (UpdateCustomerMetadata customerId' metadata')] st1
                          else issue [Api (CreateNewCustomer metadata')] st1)
               else None))"

subsection \<open>Executions\<close>

text \<open>The inputs the component reacts to: the (re)fetch of the latest conversation at mount
  or after the lobby's \<^verbatim>\<open>conversation:created\<close>, a send from the footer, a \<^verbatim>\<open>shout\<close> on the
  conversation channel, a page-visibility change, and the host page's toggle command.\<close>

datatype event =
    FetchLatest jsstr "metadata option"
  | SendMessage message jsstr
  | Shout message
  | VisibilityChange
  | ToggleDisplay bool

fun step :: "config \<Rightarrow> helpers \<Rightarrow> world \<Rightarrow> event \<Rightarrow> state \<Rightarrow> state" where
  "step cfg h w (FetchLatest cached md) st = state_of (fetchLatestConversation cfg h w cached md st)"
| "step cfg h w (SendMessage message email') st = state_of (handleSendMessage cfg h w message email' st)"
| "step cfg h w (Shout message) st = onShout h w message st"
| "step cfg h w VisibilityChange st = handleVisibilityChange w st"
| "step cfg h w (ToggleDisplay isOpen') st = handleToggleDisplay w isOpen' st"

fun run :: "config \<Rightarrow> helpers \<Rightarrow> (world \<times> event) list \<Rightarrow> state \<Rightarrow> state" where
  "run cfg h [] st = st"
| "run cfg h ((w, ev) # evs) st = run cfg h evs (step cfg h w ev st)"

text \<open>The conversation channels subscribed after a trace: a join subscribes, a leave
  unsubscribes.\<close>

fun track :: "effect \<Rightarrow> chan list \<Rightarrow> chan list" where
  "track (ChannelJoin c) cs = cs @ [c]"
| "track (ChannelLeave c) cs = remove1 c cs"
| "track _ cs = cs"

definition active_channels :: "effect list \<Rightarrow> chan list" where
  "active_channels es = fold track es []"

text \<open>The value a handler returned, if it did not throw.\<close>

fun returned :: "'a result \<Rightarrow> 'a option" where
  "returned (Return v _) = Some v"
| "returned (Throw _ _) = None"

text \<open>The largest number of conversation channels subscribed at once along a trace, starting
  from the subscriptions \<open>cs\<close>.\<close>

fun peak :: "chan list \<Rightarrow> effect list \<Rightarrow> nat" where
  "peak cs [] = length cs"
| "peak cs (e # es) = max (length cs) (peak (track e cs) es)"

text \<open>The subscriptions of the trace are the channel the component holds, and never were
  more than one.\<close>

definition subscribed :: "state \<Rightarrow> bool" where
  "subscribed st =
     (active_channels (effects st) = (case channel st of None \<Rightarrow> [] | Some c \<Rightarrow> [c]) \<and>
      peak [] (effects st) \<le> 1)"

fun is_subscription :: "effect \<Rightarrow> bool" where
  "is_subscription (ChannelJoin c) = True"
| "is_subscription (ChannelLeave c) = True"
| "is_subscription _ = False"


subsection \<open>Well-behaved surroundings\<close>






text \<open>The timeline properties behind the collapse of an optimistic entry and its echo: every
  \<^verbatim>\<open>sent_at\<close> string is on at most one entry, every optimistic entry has one, and no two
  entries with a \<^verbatim>\<open>sent_at\<close> string agree on \<^verbatim>\<open>sent_at\<close> and body.\<close>

fun is_str :: "'c jstext \<Rightarrow> bool" where
  "is_str (Str s) = True"
| "is_str _ = False"

definition unique_sent :: "message list \<Rightarrow> bool" where
  "unique_sent msgs = distinct (filter is_str (map sent_at msgs))"

definition optimistic_stamped :: "message list \<Rightarrow> bool" where
  "optimistic_stamped msgs = list_all (\<lambda>m. truthy (created_at m) \<or> is_str (sent_at m)) msgs"

definition unique_pairs :: "message list \<Rightarrow> bool" where
  "unique_pairs msgs =
     distinct (map (\<lambda>m. (sent_at m, body m)) (filter (\<lambda>m. is_str (sent_at m)) msgs))"

definition timeline_ok :: "message list \<Rightarrow> bool" where
  "timeline_ok msgs = (unique_sent msgs \<and> optimistic_stamped msgs)"

text \<open>What is expected of the surroundings at an event: the clock reading of a send is on no
  timeline entry yet; an inbound message is a server record (it has \<^verbatim>\<open>created_at\<close>) and its
  \<^verbatim>\<open>sent_at\<close> string, if it has one, is on no entry but the optimistic entry it is reconciled
  with. A re-fetch, which rebuilds the timeline from the backend's history, is not part of
  these executions.\<close>

fun orderly :: "helpers \<Rightarrow> world \<Rightarrow> event \<Rightarrow> state \<Rightarrow> bool" where
  "orderly h w (SendMessage d em) st = (Str (now w 0) \<notin> set (map sent_at (messages st)))"
| "orderly h w (Shout m) st =
     (truthy (created_at m) \<and>
      list_all (\<lambda>x. is_str (sent_at m) \<and> sent_at x = sent_at m \<longrightarrow>
                     find (is_unsent h m) (messages st) = Some x) (messages st))"
| "orderly h w (FetchLatest cached md) st = False"
| "orderly h w VisibilityChange st = True"
| "orderly h w (ToggleDisplay b) st = True"

fun orderly_run :: "config \<Rightarrow> helpers \<Rightarrow> (world \<times> event) list \<Rightarrow> state \<Rightarrow> bool" where
  "orderly_run cfg h [] st = True"
| "orderly_run cfg h ((w, ev) # evs) st =
     (orderly h w ev st \<and> orderly_run cfg h evs (step cfg h w ev st))"


subsection \<open>Example inputs\<close>

text \<open>A backend that rejects the validity check (as an older backend does), finds customer
  \<open>B\<close> for every external id, and creates customer \<open>C1\<close> and conversation \<open>conv1\<close>.\<close>

definition w_ex :: world where
  "w_ex = \<lparr>hidden = False, now = (\<lambda>i. ''2020-10-01T12:00:00.000Z''),
     api_isValidCustomer = (\<lambda>s. Inl (ApiError ''404'')),
     api_findCustomerByExternalId = (\<lambda>x e h. Inr (Str ''B'')),
     api_fetchCustomerConversations = (\<lambda>c. Inr None),
     api_updateCustomerMetadata = (\<lambda>c m. Inr c),
     api_createNewCustomer = (\<lambda>n m. Inr (Str ''C1'')),
     api_createNewConversation = (\<lambda>c. Inr (Str ''conv1''))\<rparr>"

text \<open>The code units of a string of characters below 256.\<close>

definition utf16 :: "string \<Rightarrow> code_unit list" where
  "utf16 s = map (\<lambda>c. of_nat (of_char c)) s"

text \<open>Helpers for the examples: dates are equal when both are present and the same string,
  an identifier is valid when it has the 36 characters of a UUID, the timestamps of the
  examples parse to their epoch milliseconds and nothing else parses, and the engine leaves
  an array with an inconsistent comparator as it is.\<close>

definition h_ex :: helpers where
  "h_ex = \<lparr>areDatesEqual = (\<lambda>x y. x \<noteq> Undefined \<and> x = y),
           isValidUuid = (\<lambda>s. length s = 36),
           shouldActivateGameMode = (\<lambda>b. False),
           parseDate =
             (\<lambda>x. if x = Str ''2020-10-01T11:58:00.000Z'' then Some 1601553480000
                  else if x = Str ''2020-10-01T11:59:00.000Z'' then Some 1601553540000
                  else if x = Str ''2020-10-01T11:59:30.000Z'' then Some 1601553570000
                  else None),
           engineOrder = (\<lambda>ms. ms)\<rparr>"

text \<open>A state with a joined conversation and an open widget, an unseen agent message, a
  draft, the optimistic entry a send at \<open>now w_ex\<close> makes of it, and the server's echo.\<close>

definition agent_msg :: message where
  "agent_msg = \<lparr>msg_type = Undefined, customer_id = Null, user_id = Str ''7'',
     body = Str (utf16 ''How can I help?''), file_ids = NoArray, sent_at = Null,
     created_at = Str ''2020-10-01T11:59:00.000Z'', seen_at = Null\<rparr>"

definition st_joined :: state where
  "st_joined = initial_state\<lparr>customerId := Str ''C1'', conversationId := Str ''conv1'',
     isOpen := True,
     channel := Some \<lparr>topic = ''conversation:conv1'', join_customer_id = Str ''C1''\<rparr>\<rparr>"

definition draft_hello :: message where
  "draft_hello = \<lparr>msg_type = Undefined, customer_id = Undefined, user_id = Undefined,
     body = Str (utf16 ''hello''), file_ids = Arr [], sent_at = Undefined,
     created_at = Undefined, seen_at = Undefined\<rparr>"

definition optimistic_hello :: message where
  "optimistic_hello = draft_hello\<lparr>customer_id := Str ''C1'', msg_type := Str ''customer'',
     sent_at := Str ''2020-10-01T12:00:00.000Z''\<rparr>"

definition echo_hello :: message where
  "echo_hello = \<lparr>msg_type = Undefined, customer_id = Str ''C1'', user_id = Null,
     body = Str (utf16 ''hello''), file_ids = NoArray, sent_at = Str ''2020-10-01T12:00:00.000Z'',
     created_at = Str ''2020-10-01T12:00:00.250Z'', seen_at = Null\<rparr>"


text \<open>A configured greeting, a conversation history out of order and a backend that returns
  it.\<close>

definition history :: "message list" where
  "history =
     [agent_msg\<lparr>body := Str (utf16 ''Anything else?''), created_at := Str ''2020-10-01T11:59:30.000Z''\<rparr>,
      echo_hello\<lparr>created_at := Str ''2020-10-01T11:58:00.000Z''\<rparr>,
      agent_msg\<lparr>created_at := Str ''2020-10-01T11:59:00.000Z''\<rparr>]"

definition w_history :: world where
  "w_history = w_ex\<lparr>api_fetchCustomerConversations :=
     (\<lambda>c. Inr (Some [\<lparr>conv_id = Str ''conv1'', conv_messages = Some history\<rparr>]))\<rparr>"

definition cfg_ex :: config where
  "cfg_ex = \<lparr>accountId = ''acct'', baseUrl = Undefined, greeting = Str (utf16 ''Hi!''), customer = None\<rparr>"


text \<open>The state in which the first send of a visitor waits for the backend, and a clock
  reading 400 milliseconds later.\<close>

definition st_in_flight :: state where
  "st_in_flight = initial_state
     \<lparr>messages := [optimistic_hello\<lparr>customer_id := Null\<rparr>],
      effects := [ScrollIntoView, Api (CreateNewCustomer None)]\<rparr>"

definition w_later :: world where
  "w_later = w_ex\<lparr>now := (\<lambda>i. ''2020-10-01T12:00:00.400Z'')\<rparr>"

text \<open>A history with an undated message between a later and an earlier agent message.\<close>

definition undated_msg :: message where
  "undated_msg = echo_hello\<lparr>created_at := Undefined\<rparr>"

definition w_undated :: world where
  "w_undated = w_ex\<lparr>api_fetchCustomerConversations :=
     (\<lambda>c. Inr (Some [\<lparr>conv_id = Str ''conv1'',
                        conv_messages = Some [history ! 0, undated_msg, history ! 2]\<rparr>]))\<rparr>"




section \<open>Identity resolution\<close>

text \<open>
  Claim C3. Without an external id in the metadata, \<open>checkForExistingCustomer\<close> returns the
  cached id as it is (possibly \<^verbatim>\<open>null\<close>). With one, and a lookup that answers: no match makes
  the active customer \<^verbatim>\<open>null\<close> whatever was cached; a match equal to the cached id keeps it and
  emits nothing; a different match \<open>B\<close> is returned, becomes the active customer, and exactly
  one \<^verbatim>\<open>customer:updated\<close> notification carrying \<open>B\<close> is emitted.
\<close>

theorem checkForExistingCustomer_outcomes:
  "((md = None \<or> (\<exists>m. md = Some m \<and> \<not> truthy (external_id m))) \<longrightarrow>
      checkForExistingCustomer w md cached st = Return cached (st\<lparr>customerId := cached\<rparr>)) \<and>
   (md = Some m \<and> truthy (external_id m) \<and>
    api_findCustomerByExternalId w (external_id m) (email m) (host m) = Inr found \<longrightarrow>
      returned (checkForExistingCustomer w md cached st) =
        Some (if \<not> truthy found then Null else found) \<and>
      customerId (state_of (checkForExistingCustomer w md cached st)) =
        (if \<not> truthy found then Null else found) \<and>
      effects (state_of (checkForExistingCustomer w md cached st)) =
        effects st @ [Api (FindCustomerByExternalId (external_id m) (email m) (host m))] @
        (if truthy found \<and> found \<noteq> cached
         then [Emit ''customer:updated'' (PCustomerId found)] else []))"
  by (auto simp: checkForExistingCustomer_def issue_def emit_def Let_def)

theorem checkForExistingCustomer_outcomes_witness:
  "checkForExistingCustomer w_ex None (Str ''A'') initial_state
     = Return (Str ''A'') (initial_state\<lparr>customerId := Str ''A''\<rparr>) \<and>
   returned (checkForExistingCustomer w_ex
      (Some \<lparr>email = Undefined, host = Undefined, external_id = Str ''x1''\<rparr>)
      (Str ''A'') initial_state) = Some (Str ''B'') \<and>
   effects (state_of (checkForExistingCustomer w_ex
      (Some \<lparr>email = Undefined, host = Undefined, external_id = Str ''x1''\<rparr>)
      (Str ''A'') initial_state)) =
     [Api (FindCustomerByExternalId (Str ''x1'') Undefined Undefined),
      Emit ''customer:updated'' (PCustomerId (Str ''B''))]"
  using checkForExistingCustomer_outcomes
          [where md = None and w = w_ex and cached = "Str ''A''" and st = initial_state
             and m = "\<lparr>email = Undefined, host = Undefined, external_id = Str ''x1''\<rparr>"
             and found = "Str ''B''"]
        checkForExistingCustomer_outcomes
          [where md = "Some \<lparr>email = Undefined, host = Undefined, external_id = Str ''x1''\<rparr>"
             and m = "\<lparr>email = Undefined, host = Undefined, external_id = Str ''x1''\<rparr>"
             and w = w_ex and found = "Str ''B''" and cached = "Str ''A''" and st = initial_state]
  by (simp add: w_ex_def initial_state_def)

text \<open>
  Claim C4. A cached id that is non-empty and syntactically valid is accepted when the
  backend's validity check fails with an error; a cached id that is absent, \<^verbatim>\<open>null\<close>, empty
  or not syntactically valid is rejected, and the state (with its trace of backend calls) is
  as before.
\<close>

theorem isValidCustomer_policy:
  "(isValidUuid h s \<and> s \<noteq> [] \<and> api_isValidCustomer w s = Inl err \<longrightarrow>
      fst (isValidCustomer h w (Str s) st) = True) \<and>
   (cid = Undefined \<or> cid = Null \<or> cid = Str [] \<or> (\<exists>t. cid = Str t \<and> \<not> isValidUuid h t) \<longrightarrow>
      isValidCustomer h w cid st = (False, st))"
  by (auto simp: isValidCustomer_def issue_def Let_def)

theorem isValidCustomer_policy_witness:
  "fst (isValidCustomer h_ex w_ex (Str ''123e4567-e89b-12d3-a456-426614174000'') initial_state) = True \<and>
   isValidCustomer h_ex w_ex (Str ''not-a-uuid'') initial_state = (False, initial_state)"
  using isValidCustomer_policy
          [where h = h_ex and w = w_ex and s = "''123e4567-e89b-12d3-a456-426614174000''"
             and err = "ApiError ''404''" and st = initial_state and cid = "Str ''not-a-uuid''"]
  by (simp add: w_ex_def h_ex_def)

section \<open>Seen state\<close>

text \<open>
  Claim C5. A message is seen-worthy exactly when it has no \<^verbatim>\<open>seen_at\<close>, the page is not
  hidden, it has a \<^verbatim>\<open>user_id\<close> and the widget is open. On receipt, a seen-worthy message makes
  \<open>handleNewMessage\<close> end in \<open>markMessagesAsSeen\<close>; when any of the four conditions fails, the
  timeline is the reconciled one with no entry stamped, and the only effects are the
  \<^verbatim>\<open>message:received\<close> notification, the scroll and, for an appended message, the
  \<^verbatim>\<open>messages:unseen\<close> notification: no \<^verbatim>\<open>messages:seen\<close> is pushed or emitted.
\<close>

theorem shouldMarkAsSeen_iff:
  "(shouldMarkAsSeen w st m \<longleftrightarrow>
      (\<not> truthy (seen_at m) \<and> \<not> hidden w \<and> truthy (user_id m) \<and> isOpen st)) \<and>
   (\<not> truthy (seen_at m) \<and> \<not> hidden w \<and> truthy (user_id m) \<and> isOpen st \<longrightarrow>
      handleNewMessage h w m st =
        markMessagesAsSeen w
          (scrollIntoView ((emit ''message:received'' (PMessage m) st)
             \<lparr>messages := reconcile h m (messages st)\<rparr>))) \<and>
   (\<not> (\<not> truthy (seen_at m) \<and> \<not> hidden w \<and> truthy (user_id m) \<and> isOpen st) \<longrightarrow>
      messages (handleNewMessage h w m st) = reconcile h m (messages st) \<and>
      effects (handleNewMessage h w m st) =
        effects st @ [Emit ''message:received'' (PMessage m), ScrollIntoView] @
        (if find (is_unsent h m) (messages st) = None
         then [Emit ''messages:unseen'' (PUnseen m)] else []))"
  by (auto simp: shouldMarkAsSeen_def handleNewMessage_def Let_def emit_def issue_def
        scrollIntoView_def emitUnseenMessage_def)

theorem shouldMarkAsSeen_iff_witness:
  "shouldMarkAsSeen w_ex st_joined agent_msg \<and>
   effects (handleNewMessage h_ex w_ex agent_msg st_joined) =
     [Emit ''message:received'' (PMessage agent_msg), ScrollIntoView,
      ChannelPush \<lparr>topic = ''conversation:conv1'', join_customer_id = Str ''C1''\<rparr>
        ''messages:seen'' PEmpty,
      Emit ''messages:seen'' PEmpty] \<and>
   effects (handleNewMessage h_ex w_ex agent_msg (st_joined\<lparr>isOpen := False\<rparr>)) =
     [Emit ''message:received'' (PMessage agent_msg), ScrollIntoView,
      Emit ''messages:unseen'' (PUnseen agent_msg)]"
  using shouldMarkAsSeen_iff [where w = w_ex and st = st_joined and m = agent_msg and h = h_ex]
        shouldMarkAsSeen_iff [where w = w_ex and st = "st_joined\<lparr>isOpen := False\<rparr>"
                                and m = agent_msg and h = h_ex]
  by (simp add: w_ex_def h_ex_def st_joined_def agent_msg_def initial_state_def
        markMessagesAsSeen_def scrollIntoView_def emit_def issue_def reconcile_def
        is_unsent_def Let_def)

lemma stamp_seen_length: "length (stamp_seen clock i ms) = length ms"
  by (induction ms arbitrary: i) auto

lemma stamp_seen_nth:
  "j < length ms \<Longrightarrow>
   stamp_seen clock i ms ! j =
     (if truthy (seen_at (ms ! j)) then ms ! j else (ms ! j)\<lparr>seen_at := Str (clock (i + j))\<rparr>)"
proof (induction ms arbitrary: i j)
  case Nil
  then show ?case by simp
next
  case (Cons m ms)
  show ?case
  proof (cases j)
    case 0
    then show ?thesis by simp
  next
    case (Suc k)
    with Cons.prems have "k < length ms" by simp
    from Cons.IH [OF this, of "Suc i"] Suc show ?thesis by simp
  qed
qed

lemma stamp_seen_all_seen:
  "\<forall>m \<in> set ms. truthy (seen_at m) \<Longrightarrow> stamp_seen clock i ms = ms"
  by (induction ms arbitrary: i) auto

lemma stamp_seen_seen:
  "\<forall>k. clock k \<noteq> [] \<Longrightarrow> \<forall>m \<in> set (stamp_seen clock i ms). truthy (seen_at m)"
  by (induction ms arbitrary: i) auto

lemma stamp_seen_idem:
  "\<forall>k. clock k \<noteq> [] \<Longrightarrow> stamp_seen clock' j (stamp_seen clock i ms) = stamp_seen clock i ms"
  by (rule stamp_seen_all_seen) (rule stamp_seen_seen)

lemma markMessagesAsSeen_length:
  "length (messages (markMessagesAsSeen w st)) = length (messages st)"
  by (auto simp: markMessagesAsSeen_def Let_def emit_def issue_def stamp_seen_length
      split: option.splits)

text \<open>
  Claim C6, as stated, fails where no conversation channel is joined (or the customer or the
  conversation id is missing): \<open>markMessagesAsSeen\<close> returns early and an entry lacking
  \<^verbatim>\<open>seen_at\<close> stays unstamped.
\<close>

theorem markMessagesAsSeen_unguarded_counterexample:
  "\<not> truthy (seen_at agent_msg) \<and>
   messages (markMessagesAsSeen w_ex (initial_state\<lparr>messages := [agent_msg]\<rparr>)) = [agent_msg]"
  by (simp add: markMessagesAsSeen_def initial_state_def agent_msg_def)

text \<open>
  Claim C6, amended. With clock readings that are non-empty strings (as every
  \<^verbatim>\<open>toISOString()\<close> is): when a conversation channel is joined and the customer and
  conversation ids are set, \<open>markMessagesAsSeen\<close> stamps the clock reading onto exactly the
  entries lacking \<^verbatim>\<open>seen_at\<close> and leaves every other entry as it is; otherwise it changes
  nothing. In every state, a second invocation in succession changes no entry of the
  timeline, so no \<^verbatim>\<open>seen_at\<close> set by the first.
\<close>

theorem markMessagesAsSeen_stamps:
  assumes clock: "\<forall>i. now w i \<noteq> []"
  shows "(channel st \<noteq> None \<and> truthy (customerId st) \<and> truthy (conversationId st) \<longrightarrow>
           length (messages (markMessagesAsSeen w st)) = length (messages st) \<and>
           (\<forall>i < length (messages st).
              messages (markMessagesAsSeen w st) ! i =
                (if truthy (seen_at (messages st ! i)) then messages st ! i
                 else (messages st ! i)\<lparr>seen_at := Str (now w i)\<rparr>))) \<and>
         (channel st = None \<or> \<not> truthy (customerId st) \<or> \<not> truthy (conversationId st) \<longrightarrow>
           markMessagesAsSeen w st = st) \<and>
         messages (markMessagesAsSeen w' (markMessagesAsSeen w st)) =
           messages (markMessagesAsSeen w st)"
proof (intro conjI impI allI)
  assume g: "channel st \<noteq> None \<and> truthy (customerId st) \<and> truthy (conversationId st)"
  then show "length (messages (markMessagesAsSeen w st)) = length (messages st)"
    by (auto simp: markMessagesAsSeen_def Let_def emit_def issue_def stamp_seen_length)
next
  fix i
  assume g: "channel st \<noteq> None \<and> truthy (customerId st) \<and> truthy (conversationId st)"
    and i: "i < length (messages st)"
  from g have "messages (markMessagesAsSeen w st) = stamp_seen (now w) 0 (messages st)"
    by (auto simp: markMessagesAsSeen_def Let_def emit_def issue_def)
  with stamp_seen_nth [OF i, of "now w" 0]
  show "messages (markMessagesAsSeen w st) ! i =
          (if truthy (seen_at (messages st ! i)) then messages st ! i
           else (messages st ! i)\<lparr>seen_at := Str (now w i)\<rparr>)"
    by simp
next
  assume "channel st = None \<or> \<not> truthy (customerId st) \<or> \<not> truthy (conversationId st)"
  then show "markMessagesAsSeen w st = st"
    by (auto simp: markMessagesAsSeen_def split: option.splits)
next
  show "messages (markMessagesAsSeen w' (markMessagesAsSeen w st)) =
          messages (markMessagesAsSeen w st)"
    using stamp_seen_idem [OF clock, of "now w'" 0 0 "messages st"]
    by (auto simp: markMessagesAsSeen_def Let_def emit_def issue_def split: option.splits)
qed

theorem markMessagesAsSeen_stamps_witness:
  "messages (markMessagesAsSeen w_ex (st_joined\<lparr>messages := [agent_msg]\<rparr>)) =
     [agent_msg\<lparr>seen_at := Str ''2020-10-01T12:00:00.000Z''\<rparr>] \<and>
   messages (markMessagesAsSeen (w_ex\<lparr>now := \<lambda>i. ''2021-01-01T00:00:00.000Z''\<rparr>)
              (markMessagesAsSeen w_ex (st_joined\<lparr>messages := [agent_msg]\<rparr>))) =
     [agent_msg\<lparr>seen_at := Str ''2020-10-01T12:00:00.000Z''\<rparr>]"
proof -
  have clock: "\<forall>i. now w_ex i \<noteq> []" by (simp add: w_ex_def)
  have first: "messages (markMessagesAsSeen w_ex (st_joined\<lparr>messages := [agent_msg]\<rparr>)) =
     [agent_msg\<lparr>seen_at := Str ''2020-10-01T12:00:00.000Z''\<rparr>]"
    by (simp add: markMessagesAsSeen_def st_joined_def initial_state_def agent_msg_def
          w_ex_def emit_def issue_def Let_def)
  from markMessagesAsSeen_stamps [OF clock,
         of "st_joined\<lparr>messages := [agent_msg]\<rparr>" "w_ex\<lparr>now := \<lambda>i. ''2021-01-01T00:00:00.000Z''\<rparr>"]
       first
  show ?thesis by simp
qed


section \<open>Inbound reconciliation\<close>

lemma handleNewMessage_length:
  "length (messages (handleNewMessage h w m st)) = length (reconcile h m (messages st))"
  by (auto simp: handleNewMessage_def Let_def markMessagesAsSeen_length emit_def issue_def
        scrollIntoView_def emitUnseenMessage_def)

lemma reconcile_found:
  assumes "find (is_unsent h m) msgs = Some u"
  shows "length (reconcile h m msgs) = length msgs"
    and "\<exists>i<length msgs. msgs ! i = u \<and> is_unsent h m u \<and> (\<forall>j<i. \<not> is_unsent h m (msgs ! j)) \<and>
           reconcile h m msgs ! i = m"
proof -
  show "length (reconcile h m msgs) = length msgs"
    using assms by (simp add: reconcile_def)
  from assms obtain i where i: "i < length msgs" "is_unsent h m (msgs ! i)" "u = msgs ! i"
      "\<forall>j<i. \<not> is_unsent h m (msgs ! j)"
    unfolding find_Some_iff by blast
  then have "reconcile h m msgs ! i = m"
    using assms by (simp add: reconcile_def)
  with i show "\<exists>i<length msgs. msgs ! i = u \<and> is_unsent h m u \<and>
      (\<forall>j<i. \<not> is_unsent h m (msgs ! j)) \<and> reconcile h m msgs ! i = m"
    by blast
qed

lemma reconcile_not_found:
  "find (is_unsent h m) msgs = None \<Longrightarrow> reconcile h m msgs = msgs @ [m]"
  by (simp add: reconcile_def)

text \<open>
  Claim C1. When the timeline holds an optimistic entry (no \<^verbatim>\<open>created_at\<close>) that is date-equal
  in \<^verbatim>\<open>sent_at\<close> to the inbound message and has the same body (or both bodies empty or
  absent), \<open>handleNewMessage\<close> leaves the timeline's length as it was, and the slot of such an
  entry holds the inbound message after reconciliation. When no entry matches, the inbound
  message is appended and the length grows by exactly one.
\<close>

theorem handleNewMessage_collapse:
  "((\<exists>x \<in> set (messages st). is_unsent h m x) \<longrightarrow>
      length (messages (handleNewMessage h w m st)) = length (messages st) \<and>
      (\<exists>i < length (messages st).
         is_unsent h m (messages st ! i) \<and> reconcile h m (messages st) ! i = m)) \<and>
   (\<not> (\<exists>x \<in> set (messages st). is_unsent h m x) \<longrightarrow>
      length (messages (handleNewMessage h w m st)) = Suc (length (messages st)) \<and>
      reconcile h m (messages st) = messages st @ [m])"
proof (intro conjI impI)
  assume ex: "\<exists>x \<in> set (messages st). is_unsent h m x"
  then obtain u where u: "find (is_unsent h m) (messages st) = Some u"
    by (cases "find (is_unsent h m) (messages st)") (auto simp: find_None_iff)
  from reconcile_found(1) [OF u]
  show "length (messages (handleNewMessage h w m st)) = length (messages st)"
    by (simp add: handleNewMessage_length)
  from reconcile_found(2) [OF u]
  show "\<exists>i < length (messages st).
         is_unsent h m (messages st ! i) \<and> reconcile h m (messages st) ! i = m"
    by auto
next
  assume "\<not> (\<exists>x \<in> set (messages st). is_unsent h m x)"
  then have n: "find (is_unsent h m) (messages st) = None"
    by (auto simp: find_None_iff)
  from reconcile_not_found [OF n]
  show "length (messages (handleNewMessage h w m st)) = Suc (length (messages st))"
    by (simp add: handleNewMessage_length)
  from reconcile_not_found [OF n]
  show "reconcile h m (messages st) = messages st @ [m]" .
qed

theorem handleNewMessage_collapse_witness:
  "is_unsent h_ex echo_hello optimistic_hello \<and>
   messages (handleNewMessage h_ex w_ex echo_hello (st_joined\<lparr>messages := [optimistic_hello]\<rparr>))
     = [echo_hello] \<and>
   \<not> is_unsent h_ex agent_msg optimistic_hello \<and>
   length (messages (handleNewMessage h_ex (w_ex\<lparr>hidden := True\<rparr>) agent_msg
              (st_joined\<lparr>messages := [optimistic_hello]\<rparr>))) = 2"
proof -
  have a: "is_unsent h_ex echo_hello optimistic_hello"
    and b: "\<not> is_unsent h_ex agent_msg optimistic_hello"
    by (simp_all add: is_unsent_def h_ex_def echo_hello_def optimistic_hello_def
          draft_hello_def agent_msg_def)
  have c: "messages (handleNewMessage h_ex w_ex echo_hello
              (st_joined\<lparr>messages := [optimistic_hello]\<rparr>)) = [echo_hello]"
    using a
    by (simp add: handleNewMessage_def reconcile_def shouldMarkAsSeen_def Let_def emit_def
          issue_def scrollIntoView_def st_joined_def initial_state_def)
       (simp add: echo_hello_def)
  from handleNewMessage_collapse
         [where st = "st_joined\<lparr>messages := [optimistic_hello]\<rparr>" and h = h_ex
            and m = agent_msg and w = "w_ex\<lparr>hidden := True\<rparr>"] b
  have d: "length (messages (handleNewMessage h_ex (w_ex\<lparr>hidden := True\<rparr>) agent_msg
              (st_joined\<lparr>messages := [optimistic_hello]\<rparr>))) = 2"
    by simp
  from a b c d show ?thesis by simp
qed


section \<open>Optimistic send\<close>

lemma trim_empty_iff: "trim s = [] \<longleftrightarrow> (\<forall>c \<in> set s. is_whitespace c)"
proof
  assume "trim s = []"
  then have all: "\<forall>c \<in> set (dropWhile is_whitespace s). is_whitespace c"
    by (simp add: trim_def)
  have "dropWhile is_whitespace s = []"
  proof (rule ccontr)
    assume ne: "dropWhile is_whitespace s \<noteq> []"
    then have "\<not> is_whitespace (hd (dropWhile is_whitespace s))"
      by (rule hd_dropWhile)
    moreover from ne have "hd (dropWhile is_whitespace s) \<in> set (dropWhile is_whitespace s)"
      by (rule hd_in_set)
    ultimately show False using all by blast
  qed
  then show "\<forall>c \<in> set s. is_whitespace c"
    by simp
next
  assume "\<forall>c \<in> set s. is_whitespace c"
  then have e: "dropWhile is_whitespace s = []"
    by simp
  show "trim s = []"
    unfolding trim_def e by simp
qed

text \<open>The guard of \<open>handleSendMessage\<close> as it is written: with \<^verbatim>\<open>isSending\<close> set, or with a draft
  that has neither a body with a character that is not white space nor an attachment, the
  handler returns with the state as it was.\<close>

lemma handleSendMessage_skips:
  "isSending st \<or>
   ((\<forall>s. body d = Str s \<longrightarrow> (\<forall>c \<in> set s. is_whitespace c)) \<and>
    (\<forall>fs. file_ids d = Arr fs \<longrightarrow> fs = [])) \<Longrightarrow>
   handleSendMessage cfg h w d e st = Return () st"
  by (auto simp: handleSendMessage_def Let_def isMissingBody_def isMissingAttachments_def
        trim_empty_iff split: jstext.splits jsarr.splits)

text \<open>No handler sets \<^verbatim>\<open>isSending\<close>.\<close>

lemma isSending_issue [simp]: "isSending (issue es st) = isSending st"
  by (simp add: issue_def)

lemma isSending_emit [simp]: "isSending (emit ev p st) = isSending st"
  by (simp add: emit_def)

lemma isSending_scrollIntoView [simp]: "isSending (scrollIntoView st) = isSending st"
  by (simp add: scrollIntoView_def)

lemma isSending_emitUnseenMessage [simp]: "isSending (emitUnseenMessage m st) = isSending st"
  by (simp add: emitUnseenMessage_def)

lemma isSending_joinConversationChannel [simp]:
  "isSending (joinConversationChannel conv cust st) = isSending st"
  by (simp add: joinConversationChannel_def Let_def split: option.splits)

lemma isSending_markMessagesAsSeen [simp]: "isSending (markMessagesAsSeen w st) = isSending st"
  by (simp add: markMessagesAsSeen_def Let_def split: option.splits)

lemma isSending_handleVisibilityChange [simp]:
  "isSending (handleVisibilityChange w st) = isSending st"
  by (simp add: handleVisibilityChange_def)

lemma isSending_handleToggleDisplay [simp]:
  "isSending (handleToggleDisplay w b st) = isSending st"
  by (simp add: handleToggleDisplay_def Let_def)

lemma isSending_onShout [simp]: "isSending (onShout h w m st) = isSending st"
  by (simp add: onShout_def handleNewMessage_def Let_def)

lemma isSending_checkForExistingCustomer [simp]:
  "isSending (state_of (checkForExistingCustomer w md cached st)) = isSending st"
  by (simp add: checkForExistingCustomer_def Let_def split: option.splits sum.splits)

lemma isSending_createOrUpdateCustomer [simp]:
  "isSending (state_of (createOrUpdateCustomer cfg w ex em st)) = isSending st"
  by (simp add: createOrUpdateCustomer_def Let_def split: sum.splits)

lemma isSending_updateExistingCustomer [simp]:
  "isSending (updateExistingCustomer w c md st) = isSending st"
  by (simp add: updateExistingCustomer_def split: option.splits)

lemma isSending_initializeNewConversation [simp]:
  "isSending (state_of (initializeNewConversation cfg w ex em st)) = isSending st"
proof (cases "createOrUpdateCustomer cfg w ex em st")
  case (Return c st1)
  with isSending_createOrUpdateCustomer [of cfg w ex em st]
  show ?thesis
    by (simp add: initializeNewConversation_def Let_def split: sum.splits)
next
  case (Throw e st1)
  with isSending_createOrUpdateCustomer [of cfg w ex em st]
  show ?thesis
    by (simp add: initializeNewConversation_def)
qed

lemma isSending_handleSendMessage:
  "isSending (state_of (handleSendMessage cfg h w d em st)) = isSending st"
proof -
  let ?st1 = "scrollIntoView (st\<lparr>messages := messages st @
      [d\<lparr>customer_id := customerId st, msg_type := Str ''customer'', sent_at := Str (now w 0)\<rparr>]\<rparr>)"
  have "isSending (state_of (initializeNewConversation cfg w (customerId st) em ?st1)) =
          isSending ?st1"
    by (rule isSending_initializeNewConversation)
  then show ?thesis
    by (cases "initializeNewConversation cfg w (customerId st) em ?st1")
       (simp_all add: handleSendMessage_def Let_def split: option.splits)
qed

lemma isSending_fetchLatestConversation:
  "isSending (state_of (fetchLatestConversation cfg h w cached md st)) = isSending st"
proof -
  have "isSending (state_of (checkForExistingCustomer w md cached st)) = isSending st"
    by simp
  then show ?thesis
    by (cases "checkForExistingCustomer w md cached st")
       (simp_all add: fetchLatestConversation_def Let_def listenForNewConversations_def
          split: sum.splits option.splits list.splits)
qed

lemma isSending_step: "isSending (step cfg h w ev st) = isSending st"
proof (cases ev)
  case (FetchLatest cached md)
  then show ?thesis by (simp add: isSending_fetchLatestConversation)
next
  case (SendMessage d em)
  then show ?thesis by (simp add: isSending_handleSendMessage)
next
  case (Shout m)
  then show ?thesis by simp
next
  case VisibilityChange
  then show ?thesis by simp
next
  case (ToggleDisplay b)
  then show ?thesis by simp
qed

lemma isSending_run: "isSending (run cfg h evs st) = isSending st"
proof (induction evs arbitrary: st)
  case Nil
  show ?case by simp
next
  case (Cons e evs)
  obtain w ev where e: "e = (w, ev)" by (cases e)
  have "isSending (run cfg h evs (step cfg h w ev st)) = isSending (step cfg h w ev st)"
    by (rule Cons.IH)
  with e show ?case by (simp add: isSending_step)
qed


section \<open>Initialisation\<close>

lemma first_of_sorted_filter:
  assumes "filter P (sort_key f xs) = u # rest"
  shows "P u \<and> u \<in> set xs \<and> (\<forall>x \<in> set xs. P x \<longrightarrow> f u \<le> f x)"
proof -
  have "sorted (map f (filter P (sort_key f xs)))"
    by (rule sorted_filter) simp
  with assms have le: "\<forall>x \<in> set rest. f u \<le> f x"
    by simp
  have mem: "set (u # rest) = {x \<in> set xs. P x}"
    using assms [symmetric] by simp
  then have "u \<in> {x \<in> set xs. P x}" by (metis list.set_intros(1))
  moreover have "\<forall>x \<in> set xs. P x \<longrightarrow> f u \<le> f x"
  proof (intro ballI impI)
    fix x assume "x \<in> set xs" "P x"
    then have "x \<in> set (u # rest)" using mem by blast
    then show "f u \<le> f x" using le by auto
  qed
  ultimately show ?thesis by blast
qed

lemma checkForExistingCustomer_channel:
  "channel (state_of (checkForExistingCustomer w md cached st)) = channel st"
  by (auto simp: checkForExistingCustomer_def Let_def issue_def emit_def
      split: option.splits sum.splits)

lemma sortMessages_parsed:
  "\<forall>m \<in> set msgs. parseDate h (created_at m) \<noteq> None \<Longrightarrow>
   sortMessages h msgs = sort_key (created h) msgs"
  by (simp add: sortMessages_def all_parse_def list_all_iff)

text \<open>
  Claim C8, as stated, fails where a \<^verbatim>\<open>created_at\<close> does not parse: the comparator then returns
  \<^verbatim>\<open>NaN\<close>, which \<^verbatim>\<open>sort\<close> takes for equal. With an undated message between a later and an earlier
  one and an engine that leaves such an array as it is, the timeline has the later message
  before the earlier one, and the message surfaced as unseen is the later one although the
  earlier one is unseen too.
\<close>

theorem unparsed_date_counterexample:
  "messages (state_of (fetchLatestConversation cfg_ex h_ex w_undated (Str ''C1'') None initial_state)) =
     getDefaultGreeting cfg_ex w_undated @ [history ! 0, undated_msg, history ! 2] \<and>
   parseDate h_ex (created_at (history ! 0)) = Some 1601553570000 \<and>
   parseDate h_ex (created_at undated_msg) = None \<and>
   parseDate h_ex (created_at (history ! 2)) = Some 1601553540000 \<and>
   unseen_agent (history ! 2) \<and>
   last (effects (state_of (fetchLatestConversation cfg_ex h_ex w_undated (Str ''C1'') None
                   initial_state))) =
     Emit ''messages:unseen'' (PUnseen (history ! 0))"
proof -
  have srt: "sortMessages h_ex [history ! 0, undated_msg, history ! 2] =
               [history ! 0, undated_msg, history ! 2]"
    by (simp add: sortMessages_def all_parse_def all_compare_equal_def h_ex_def history_def
          undated_msg_def agent_msg_def echo_hello_def)
  have uns: "filter unseen_agent [history ! 0, undated_msg, history ! 2] =
               [history ! 0, history ! 2]"
    by (simp add: history_def undated_msg_def unseen_agent_def agent_msg_def echo_hello_def)
  have fs: "filter unseen_agent (sortMessages h_ex [history ! 0, undated_msg, history ! 2]) =
              [history ! 0, history ! 2]"
    unfolding srt by (rule uns)
  have st0: "state_of (fetchLatestConversation cfg_ex h_ex w_undated (Str ''C1'') None initial_state) =
              emitUnseenMessage (history ! 0)
                (joinConversationChannel (Str ''conv1'') (Str ''C1'')
                   (issue [Api (FetchCustomerConversations (Str ''C1''))]
                      (initial_state\<lparr>customerId := Str ''C1''\<rparr>)
                    \<lparr>conversationId := Str ''conv1'',
                      messages := getDefaultGreeting cfg_ex w_undated @
                        sortMessages h_ex [history ! 0, undated_msg, history ! 2]\<rparr>))"
    by (simp add: fetchLatestConversation_def checkForExistingCustomer_def w_undated_def
          updateExistingCustomer_def Let_def fs)
  note st = st0 [unfolded srt]
  have p: "parseDate h_ex (created_at (history ! 0)) = Some 1601553570000"
    "parseDate h_ex (created_at undated_msg) = None"
    "parseDate h_ex (created_at (history ! 2)) = Some 1601553540000"
    "unseen_agent (history ! 2)"
    by (simp_all add: h_ex_def history_def undated_msg_def unseen_agent_def agent_msg_def
          echo_hello_def)
  show ?thesis
    unfolding st using p
    by (simp add: emitUnseenMessage_def emit_def issue_def joinConversationChannel_def
          scrollIntoView_def Let_def initial_state_def)
qed

text \<open>
  Claim C8, amended. When identity resolution yields a customer, the backend returns at
  least one conversation and the \<^verbatim>\<open>created_at\<close> of every message of the first conversation
  returned parses as a date, the timeline becomes the greeting (if configured) followed by
  those messages sorted by \<^verbatim>\<open>created_at\<close> ascending (a sorted permutation of them). The effects
  are the fetch, the channel join, the customer update if metadata was given and, exactly
  when some message lacks \<^verbatim>\<open>seen_at\<close> and has a \<^verbatim>\<open>user_id\<close>, one \<^verbatim>\<open>messages:unseen\<close> notification;
  the message it carries is such a message and no other such message is older.
\<close>

theorem fetchLatestConversation_timeline:
  assumes resolved: "checkForExistingCustomer w md cached st = Return cid st1"
    and cid: "truthy cid"
    and found: "api_fetchCustomerConversations w cid = Inr (Some (latest # others))"
    and parsed: "\<forall>m \<in> set (case conv_messages latest of None \<Rightarrow> [] | Some ms \<Rightarrow> ms).
                   parseDate h (created_at m) \<noteq> None"
  shows "messages (state_of (fetchLatestConversation cfg h w cached md st)) =
           getDefaultGreeting cfg w @
           sort_key (created h)
             (case conv_messages latest of None \<Rightarrow> [] | Some ms \<Rightarrow> ms) \<and>
         sorted (map (created h)
                   (drop (length (getDefaultGreeting cfg w))
                      (messages (state_of (fetchLatestConversation cfg h w cached md st))))) \<and>
         mset (drop (length (getDefaultGreeting cfg w))
                 (messages (state_of (fetchLatestConversation cfg h w cached md st)))) =
           mset (case conv_messages latest of None \<Rightarrow> [] | Some ms \<Rightarrow> ms) \<and>
         effects (state_of (fetchLatestConversation cfg h w cached md st)) =
           effects st1 @ [Api (FetchCustomerConversations cid)] @
           (case channel st1 of Some c \<Rightarrow> [ChannelLeave c] | None \<Rightarrow> []) @
           [ChannelJoin \<lparr>topic = ''conversation:'' @ template (conv_id latest),
                         join_customer_id = cid\<rparr>,
            Emit ''conversation:join'' (PJoin (conv_id latest) cid), ScrollIntoView] @
           (case md of None \<Rightarrow> [] | Some m \<Rightarrow> [Api (UpdateCustomerMetadata cid (Some m))]) @
           (case filter unseen_agent
                   (sort_key (created h)
                      (case conv_messages latest of None \<Rightarrow> [] | Some ms \<Rightarrow> ms)) of
              [] \<Rightarrow> []
            | u # rest \<Rightarrow> [Emit ''messages:unseen'' (PUnseen u)]) \<and>
         (\<forall>u rest.
            filter unseen_agent
              (sort_key (created h)
                 (case conv_messages latest of None \<Rightarrow> [] | Some ms \<Rightarrow> ms)) = u # rest \<longrightarrow>
            unseen_agent u \<and>
            u \<in> set (case conv_messages latest of None \<Rightarrow> [] | Some ms \<Rightarrow> ms) \<and>
            (\<forall>m \<in> set (case conv_messages latest of None \<Rightarrow> [] | Some ms \<Rightarrow> ms).
               unseen_agent m \<longrightarrow> created h u \<le> created h m))"
proof -
  let ?msgs = "case conv_messages latest of None \<Rightarrow> [] | Some ms \<Rightarrow> ms"
  let ?f = "created h"
  let ?st' = "state_of (fetchLatestConversation cfg h w cached md st)"
  have srt: "sortMessages h ?msgs = sort_key ?f ?msgs"
    using parsed by (rule sortMessages_parsed)
  have m: "messages ?st' = getDefaultGreeting cfg w @ sort_key ?f ?msgs"
    using resolved cid found
    by (simp add: fetchLatestConversation_def Let_def joinConversationChannel_def
          updateExistingCustomer_def emitUnseenMessage_def emit_def issue_def scrollIntoView_def
          srt split: list.splits option.splits)
  have e: "effects ?st' =
           effects st1 @ [Api (FetchCustomerConversations cid)] @
           (case channel st1 of Some c \<Rightarrow> [ChannelLeave c] | None \<Rightarrow> []) @
           [ChannelJoin \<lparr>topic = ''conversation:'' @ template (conv_id latest),
                         join_customer_id = cid\<rparr>,
            Emit ''conversation:join'' (PJoin (conv_id latest) cid), ScrollIntoView] @
           (case md of None \<Rightarrow> [] | Some m \<Rightarrow> [Api (UpdateCustomerMetadata cid (Some m))]) @
           (case filter unseen_agent (sort_key ?f ?msgs) of
              [] \<Rightarrow> []
            | u # rest \<Rightarrow> [Emit ''messages:unseen'' (PUnseen u)])"
    using resolved cid found
    by (simp add: fetchLatestConversation_def Let_def joinConversationChannel_def
          updateExistingCustomer_def emitUnseenMessage_def emit_def issue_def scrollIntoView_def
          srt split: list.splits option.splits)
  have d: "drop (length (getDefaultGreeting cfg w)) (messages ?st') = sort_key ?f ?msgs"
    by (simp add: m)
  have s: "sorted (map ?f (drop (length (getDefaultGreeting cfg w)) (messages ?st')))"
    unfolding d by simp
  have p: "mset (drop (length (getDefaultGreeting cfg w)) (messages ?st')) = mset ?msgs"
    unfolding d by simp
  have o: "\<forall>u rest. filter unseen_agent (sort_key ?f ?msgs) = u # rest \<longrightarrow>
            unseen_agent u \<and> u \<in> set ?msgs \<and>
            (\<forall>m \<in> set ?msgs. unseen_agent m \<longrightarrow> ?f u \<le> ?f m)"
    using first_of_sorted_filter [where P = unseen_agent and f = ?f and xs = ?msgs]
    by blast
  from m s p e o show ?thesis by blast
qed

theorem fetchLatestConversation_timeline_witness:
  "messages (state_of (fetchLatestConversation cfg_ex h_ex w_history (Str ''C1'') None initial_state)) =
     getDefaultGreeting cfg_ex w_history @ [history ! 1, history ! 2, history ! 0] \<and>
   effects (state_of (fetchLatestConversation cfg_ex h_ex w_history (Str ''C1'') None initial_state)) =
     [Api (FetchCustomerConversations (Str ''C1'')),
      ChannelJoin \<lparr>topic = ''conversation:conv1'', join_customer_id = Str ''C1''\<rparr>,
      Emit ''conversation:join'' (PJoin (Str ''conv1'') (Str ''C1'')), ScrollIntoView,
      Emit ''messages:unseen'' (PUnseen (history ! 2))]"
proof -
  have r: "checkForExistingCustomer w_history None (Str ''C1'') initial_state =
             Return (Str ''C1'') (initial_state\<lparr>customerId := Str ''C1''\<rparr>)"
    by (simp add: checkForExistingCustomer_def)
  have c: "truthy (Str ''C1'')" by simp
  have f: "api_fetchCustomerConversations w_history (Str ''C1'') =
             Inr (Some (\<lparr>conv_id = Str ''conv1'', conv_messages = Some history\<rparr> # []))"
    by (simp add: w_history_def)
  have q: "\<forall>m \<in> set (case conv_messages \<lparr>conv_id = Str ''conv1'', conv_messages = Some history\<rparr>
                        of None \<Rightarrow> [] | Some ms \<Rightarrow> ms).
             parseDate h_ex (created_at m) \<noteq> None"
    by (simp add: history_def h_ex_def agent_msg_def echo_hello_def)
  have srt: "sort_key (created h_ex) history = [history ! 1, history ! 2, history ! 0]"
    by (simp add: created_def history_def h_ex_def agent_msg_def echo_hello_def)
  have uns: "filter unseen_agent [history ! 1, history ! 2, history ! 0] = [history ! 2, history ! 0]"
    by (simp add: history_def unseen_agent_def agent_msg_def echo_hello_def)
  note t = fetchLatestConversation_timeline [OF r c f q, of cfg_ex]
  have m: "messages (state_of (fetchLatestConversation cfg_ex h_ex w_history (Str ''C1'') None
              initial_state)) =
           getDefaultGreeting cfg_ex w_history @ [history ! 1, history ! 2, history ! 0]"
    using t [THEN conjunct1] by (simp add: srt)
  have e: "effects (state_of (fetchLatestConversation cfg_ex h_ex w_history (Str ''C1'') None
              initial_state)) =
     [Api (FetchCustomerConversations (Str ''C1'')),
      ChannelJoin \<lparr>topic = ''conversation:conv1'', join_customer_id = Str ''C1''\<rparr>,
      Emit ''conversation:join'' (PJoin (Str ''conv1'') (Str ''C1'')), ScrollIntoView,
      Emit ''messages:unseen'' (PUnseen (history ! 2))]"
  proof -
    have fu: "filter unseen_agent (sort_key (created h_ex) history) = [history ! 2, history ! 0]"
      unfolding srt by (rule uns)
    from t [THEN conjunct2, THEN conjunct2, THEN conjunct2, THEN conjunct1]
    show ?thesis
      by (simp add: fu initial_state_def)
  qed
  from m e show ?thesis by (rule conjI)
qed


section \<open>Channel sequencing\<close>

lemma active_channels_append:
  "active_channels (es @ es') = fold track es' (active_channels es)"
  by (simp add: active_channels_def)

lemma track_other: "\<not> is_subscription e \<Longrightarrow> track e cs = cs"
  by (cases e) auto

lemma fold_track_other:
  "\<forall>e \<in> set es. \<not> is_subscription e \<Longrightarrow> fold track es cs = cs"
  by (induction es arbitrary: cs) (auto simp: track_other)

lemma peak_ge: "length cs \<le> peak cs es"
  by (cases es) auto

lemma peak_append: "peak cs (es @ es') = max (peak cs es) (peak (fold track es cs) es')"
  by (induction es arbitrary: cs) (auto simp: max.assoc max_absorb2 peak_ge)

lemma peak_other: "\<forall>e \<in> set es. \<not> is_subscription e \<Longrightarrow> peak cs es = length cs"
  by (induction es arbitrary: cs) (auto simp: track_other)

lemma peak_trace_append:
  "peak [] (es @ es') = max (peak [] es) (peak (active_channels es) es')"
  by (simp add: peak_append active_channels_def)

lemma active_le_peak: "length (active_channels es) \<le> peak [] es"
proof -
  have "peak [] (es @ []) = max (peak [] es) (peak (active_channels es) [])"
    by (rule peak_trace_append)
  then show ?thesis by simp
qed

lemma subscribed_issue [simp]:
  "\<forall>e \<in> set es. \<not> is_subscription e \<Longrightarrow> subscribed (issue es st) = subscribed st"
  using active_le_peak [of "effects st"]
  by (auto simp: subscribed_def issue_def active_channels_append fold_track_other
        peak_trace_append peak_other)

lemma subscribed_emit [simp]: "subscribed (emit ev p st) = subscribed st"
  by (simp add: emit_def)

lemma subscribed_scroll [simp]: "subscribed (scrollIntoView st) = subscribed st"
  by (simp add: scrollIntoView_def)

lemma subscribed_emitUnseen [simp]: "subscribed (emitUnseenMessage m st) = subscribed st"
  by (simp add: emitUnseenMessage_def)

lemma subscribed_updates [simp]:
  "subscribed (st\<lparr>messages := ms\<rparr>) = subscribed st"
  "subscribed (st\<lparr>customerId := a\<rparr>) = subscribed st"
  "subscribed (st\<lparr>conversationId := b\<rparr>) = subscribed st"
  "subscribed (st\<lparr>isOpen := o1\<rparr>) = subscribed st"
  "subscribed (st\<lparr>isTransitioning := o2\<rparr>) = subscribed st"
  "subscribed (st\<lparr>isGameMode := o3\<rparr>) = subscribed st"
  by (simp_all add: subscribed_def)

lemma subscribed_join:
  "subscribed st \<Longrightarrow> subscribed (joinConversationChannel conv cust st)"
  by (cases "channel st")
     (simp_all add: subscribed_def joinConversationChannel_def Let_def issue_def emit_def
        scrollIntoView_def active_channels_append peak_trace_append)

lemma subscribed_markSeen [simp]: "subscribed (markMessagesAsSeen w st) = subscribed st"
  by (simp add: markMessagesAsSeen_def Let_def split: option.splits)

lemma subscribed_visibility [simp]: "subscribed (handleVisibilityChange w st) = subscribed st"
  by (simp add: handleVisibilityChange_def)

lemma subscribed_toggle [simp]: "subscribed (handleToggleDisplay w b st) = subscribed st"
  by (simp add: handleToggleDisplay_def Let_def)

lemma subscribed_shout [simp]: "subscribed (onShout h w m st) = subscribed st"
  by (simp add: onShout_def handleNewMessage_def Let_def)

lemma subscribed_check [simp]:
  "subscribed (state_of (checkForExistingCustomer w md cached st)) = subscribed st"
  by (simp add: checkForExistingCustomer_def Let_def split: option.splits sum.splits)

lemma subscribed_createOrUpdate [simp]:
  "subscribed (state_of (createOrUpdateCustomer cfg w ex em st)) = subscribed st"
  by (simp add: createOrUpdateCustomer_def Let_def split: sum.splits)

lemma subscribed_updateExisting [simp]:
  "subscribed (updateExistingCustomer w c md st) = subscribed st"
  by (simp add: updateExistingCustomer_def split: option.splits)

lemma subscribed_initialize:
  "subscribed st \<Longrightarrow> subscribed (state_of (initializeNewConversation cfg w ex em st))"
proof -
  assume s: "subscribed st"
  have "subscribed (state_of (createOrUpdateCustomer cfg w ex em st))"
    using s by simp
  then show ?thesis
    by (cases "createOrUpdateCustomer cfg w ex em st")
       (auto simp: initializeNewConversation_def Let_def subscribed_join split: sum.splits)
qed

lemma subscribed_send:
  "subscribed st \<Longrightarrow> subscribed (state_of (handleSendMessage cfg h w d em st))"
proof -
  assume s: "subscribed st"
  let ?st1 = "scrollIntoView (st\<lparr>messages := messages st @
      [d\<lparr>customer_id := customerId st, msg_type := Str ''customer'', sent_at := Str (now w 0)\<rparr>]\<rparr>)"
  have s1: "subscribed ?st1" using s by simp
  have s2: "subscribed (state_of (initializeNewConversation cfg w (customerId st) em ?st1))"
    using s1 by (rule subscribed_initialize)
  show ?thesis
    using s s1 s2
    by (cases "initializeNewConversation cfg w (customerId st) em ?st1")
       (auto simp: handleSendMessage_def Let_def split: option.splits)
qed

lemma subscribed_fetch:
  "subscribed st \<Longrightarrow> subscribed (state_of (fetchLatestConversation cfg h w cached md st))"
proof -
  assume s: "subscribed st"
  have "subscribed (state_of (checkForExistingCustomer w md cached st))"
    using s by simp
  then show ?thesis
    by (cases "checkForExistingCustomer w md cached st")
       (auto simp: fetchLatestConversation_def Let_def listenForNewConversations_def
          subscribed_join split: sum.splits option.splits list.splits)
qed

lemma subscribed_step: "subscribed st \<Longrightarrow> subscribed (step cfg h w ev st)"
  by (cases ev) (simp_all add: subscribed_send subscribed_fetch)

lemma subscribed_run: "subscribed st \<Longrightarrow> subscribed (run cfg h evs st)"
  by (induction evs arbitrary: st) (auto simp: subscribed_step)

lemma subscribed_initial: "subscribed initial_state"
  by (simp add: subscribed_def initial_state_def active_channels_def)

text \<open>
  Claim C9. A join of a conversation channel issues, in this order, a leave of the channel
  held before (when there is one), the join of the new channel, and a \<^verbatim>\<open>conversation:join\<close>
  notification. In every execution from the initial state the subscribed conversation
  channels are exactly the channel the component holds, and at no point of the trace is
  more than one subscribed.
\<close>

theorem joinConversationChannel_sequenced:
  "effects (joinConversationChannel conv cust st) =
     effects st @ (case channel st of Some c \<Rightarrow> [ChannelLeave c] | None \<Rightarrow> []) @
     [ChannelJoin \<lparr>topic = ''conversation:'' @ template conv, join_customer_id = cust\<rparr>,
      Emit ''conversation:join'' (PJoin conv cust), ScrollIntoView] \<and>
   channel (joinConversationChannel conv cust st) =
     Some \<lparr>topic = ''conversation:'' @ template conv, join_customer_id = cust\<rparr> \<and>
   active_channels (effects (run cfg h evs initial_state)) =
     (case channel (run cfg h evs initial_state) of None \<Rightarrow> [] | Some c \<Rightarrow> [c]) \<and>
   peak [] (effects (run cfg h evs initial_state)) \<le> 1"
proof -
  have a: "effects (joinConversationChannel conv cust st) =
     effects st @ (case channel st of Some c \<Rightarrow> [ChannelLeave c] | None \<Rightarrow> []) @
     [ChannelJoin \<lparr>topic = ''conversation:'' @ template conv, join_customer_id = cust\<rparr>,
      Emit ''conversation:join'' (PJoin conv cust), ScrollIntoView]"
    by (simp add: joinConversationChannel_def Let_def issue_def emit_def scrollIntoView_def
        split: option.splits)
  have b: "channel (joinConversationChannel conv cust st) =
     Some \<lparr>topic = ''conversation:'' @ template conv, join_customer_id = cust\<rparr>"
    by (simp add: joinConversationChannel_def Let_def issue_def emit_def scrollIntoView_def
        split: option.splits)
  have s: "subscribed (run cfg h evs initial_state)"
    by (rule subscribed_run) (rule subscribed_initial)
  then have c: "active_channels (effects (run cfg h evs initial_state)) =
     (case channel (run cfg h evs initial_state) of None \<Rightarrow> [] | Some c \<Rightarrow> [c])"
    by (simp add: subscribed_def)
  from s have d: "peak [] (effects (run cfg h evs initial_state)) \<le> 1"
    by (simp add: subscribed_def)
  from a b c d show ?thesis by blast
qed


theorem joinConversationChannel_sequenced_witness:
  "effects (joinConversationChannel (Str ''conv2'') (Str ''C1'') st_joined) =
     [ChannelLeave \<lparr>topic = ''conversation:conv1'', join_customer_id = Str ''C1''\<rparr>,
      ChannelJoin \<lparr>topic = ''conversation:conv2'', join_customer_id = Str ''C1''\<rparr>,
      Emit ''conversation:join'' (PJoin (Str ''conv2'') (Str ''C1'')), ScrollIntoView] \<and>
   active_channels (effects (run cfg_ex h_ex
       [(w_ex, SendMessage draft_hello Undefined), (w_history, FetchLatest (Str ''C1'') None)]
       initial_state)) =
     [\<lparr>topic = ''conversation:conv1'', join_customer_id = Str ''C1''\<rparr>] \<and>
   peak [] (effects (run cfg_ex h_ex
       [(w_ex, SendMessage draft_hello Undefined), (w_history, FetchLatest (Str ''C1'') None)]
       initial_state)) \<le> 1"
proof -
  have ch: "channel (state_of (fetchLatestConversation cfg_ex h_ex w_history (Str ''C1'') None
              (step cfg_ex h_ex w_ex (SendMessage draft_hello Undefined) initial_state))) =
            Some \<lparr>topic = ''conversation:conv1'', join_customer_id = Str ''C1''\<rparr>"
    by (simp add: fetchLatestConversation_def checkForExistingCustomer_def w_history_def
          joinConversationChannel_def updateExistingCustomer_def emitUnseenMessage_def Let_def
          scrollIntoView_def emit_def issue_def split: list.splits)
  from joinConversationChannel_sequenced
         [of "Str ''conv2''" "Str ''C1''" st_joined cfg_ex h_ex
             "[(w_ex, SendMessage draft_hello Undefined), (w_history, FetchLatest (Str ''C1'') None)]"]
       ch
  show ?thesis
    by (simp add: st_joined_def initial_state_def)
qed


section \<open>The greeting\<close>





lemma issue_messages [simp]: "messages (issue es st) = messages st"
  by (simp add: issue_def)

lemma emit_messages [simp]: "messages (emit ev p st) = messages st"
  by (simp add: emit_def)

lemma scrollIntoView_messages [simp]: "messages (scrollIntoView st) = messages st"
  by (simp add: scrollIntoView_def)

lemma emitUnseenMessage_messages [simp]: "messages (emitUnseenMessage m st) = messages st"
  by (simp add: emitUnseenMessage_def)

lemma markMessagesAsSeen_messages:
  "messages (markMessagesAsSeen w st) = messages st \<or>
   messages (markMessagesAsSeen w st) = stamp_seen (now w) 0 (messages st)"
  by (simp add: markMessagesAsSeen_def Let_def split: option.splits)



lemma handleNewMessage_messages:
  "messages (handleNewMessage h w m st) = reconcile h m (messages st) \<or>
   messages (handleNewMessage h w m st) =
     messages (markMessagesAsSeen w
       (scrollIntoView ((emit ''message:received'' (PMessage m) st)
          \<lparr>messages := reconcile h m (messages st)\<rparr>)))"
  by (simp add: handleNewMessage_def Let_def)

lemma handleVisibilityChange_cases:
  "handleVisibilityChange w st = st \<or> handleVisibilityChange w st = markMessagesAsSeen w st"
  by (simp add: handleVisibilityChange_def)

lemma joinConversationChannel_messages [simp]:
  "messages (joinConversationChannel conv cust st) = messages st"
  by (simp add: joinConversationChannel_def Let_def split: option.splits)

lemma createOrUpdateCustomer_messages [simp]:
  "messages (state_of (createOrUpdateCustomer cfg w ex em st)) = messages st"
  by (simp add: createOrUpdateCustomer_def Let_def split: sum.splits)

lemma initializeNewConversation_messages [simp]:
  "messages (state_of (initializeNewConversation cfg w ex em st)) = messages st"
proof (cases "createOrUpdateCustomer cfg w ex em st")
  case (Return c st1)
  with createOrUpdateCustomer_messages [of cfg w ex em st]
  show ?thesis
    by (simp add: initializeNewConversation_def Let_def split: sum.splits)
next
  case (Throw e st1)
  with createOrUpdateCustomer_messages [of cfg w ex em st]
  show ?thesis
    by (simp add: initializeNewConversation_def)
qed

lemma handleSendMessage_messages:
  "messages (state_of (handleSendMessage cfg h w d em st)) = messages st \<or>
   messages (state_of (handleSendMessage cfg h w d em st)) =
     messages st @ [d\<lparr>customer_id := customerId st, msg_type := Str ''customer'',
                      sent_at := Str (now w 0)\<rparr>]"
proof -
  let ?st1 = "scrollIntoView (st\<lparr>messages := messages st @
      [d\<lparr>customer_id := customerId st, msg_type := Str ''customer'', sent_at := Str (now w 0)\<rparr>]\<rparr>)"
  have "messages (state_of (initializeNewConversation cfg w (customerId st) em ?st1)) =
          messages ?st1"
    by (rule initializeNewConversation_messages)
  then show ?thesis
    by (cases "initializeNewConversation cfg w (customerId st) em ?st1")
       (simp_all add: handleSendMessage_def Let_def split: option.splits)
qed







lemma checkForExistingCustomer_messages [simp]:
  "messages (state_of (checkForExistingCustomer w md cached st)) = messages st"
  by (simp add: checkForExistingCustomer_def Let_def split: option.splits sum.splits)

lemma updateExistingCustomer_messages [simp]:
  "messages (updateExistingCustomer w c md st) = messages st"
  by (simp add: updateExistingCustomer_def split: option.splits)

lemma listenForNewConversations_messages [simp]:
  "messages (listenForNewConversations c st) = messages st"
  by (simp add: listenForNewConversations_def)










section \<open>A send in flight\<close>

text \<open>The state of a suspended send is a state the handler passes through: it has the
  timeline the handler ends with, and its trace is the beginning of the handler's.\<close>

lemma createOrUpdateCustomer_effects:
  "\<exists>es. effects (state_of (createOrUpdateCustomer cfg w ex em st)) =
          effects st @
          [Api (if truthy ex
                then UpdateCustomerMetadata ex
                       (if truthy em
                        then Some (case customer cfg of
                                     None \<Rightarrow> \<lparr>email = em, host = Undefined, external_id = Undefined\<rparr>
                                   | Some c \<Rightarrow> c\<lparr>email := em\<rparr>)
                        else customer cfg)
                else CreateNewCustomer
                       (if truthy em
                        then Some (case customer cfg of
                                     None \<Rightarrow> \<lparr>email = em, host = Undefined, external_id = Undefined\<rparr>
                                   | Some c \<Rightarrow> c\<lparr>email := em\<rparr>)
                        else customer cfg))] @ es"
  by (simp add: createOrUpdateCustomer_def Let_def issue_def emit_def split: sum.splits)

lemma initializeNewConversation_effects:
  "effects (state_of (createOrUpdateCustomer cfg w ex em st)) = effects st @ es \<Longrightarrow>
   \<exists>es'. effects (state_of (initializeNewConversation cfg w ex em st)) = effects st @ es @ es'"
  by (cases "createOrUpdateCustomer cfg w ex em st")
     (simp_all add: initializeNewConversation_def Let_def joinConversationChannel_def issue_def
        emit_def scrollIntoView_def split: sum.splits option.splits)

lemma handleSendMessage_suspended_passes:
  assumes s: "handleSendMessage_suspended cfg h w d em st = Some s"
  shows "isSending s = isSending st \<and>
         messages s = messages (state_of (handleSendMessage cfg h w d em st)) \<and>
         (\<exists>es. effects (state_of (handleSendMessage cfg h w d em st)) = effects s @ es)"
proof -
  let ?st1 = "scrollIntoView (st\<lparr>messages := messages st @
      [d\<lparr>customer_id := customerId st, msg_type := Str ''customer'', sent_at := Str (now w 0)\<rparr>]\<rparr>)"
  let ?req = "Api (if truthy (customerId st)
                then UpdateCustomerMetadata (customerId st)
                       (if truthy em
                        then Some (case customer cfg of
                                     None \<Rightarrow> \<lparr>email = em, host = Undefined, external_id = Undefined\<rparr>
                                   | Some c \<Rightarrow> c\<lparr>email := em\<rparr>)
                        else customer cfg)
                else CreateNewCustomer
                       (if truthy em
                        then Some (case customer cfg of
                                     None \<Rightarrow> \<lparr>email = em, host = Undefined, external_id = Undefined\<rparr>
                                   | Some c \<Rightarrow> c\<lparr>email := em\<rparr>)
                        else customer cfg))"
  let ?init = "initializeNewConversation cfg w (customerId st) em ?st1"
  from s have go: "\<not> isSending st"
      "\<not> (isMissingBody (body d) \<and> isMissingAttachments (file_ids d))"
      "\<not> shouldActivateGameMode h (body d)"
      "\<not> truthy (customerId st) \<or> \<not> truthy (conversationId st)"
    and sv: "s = issue [?req] ?st1"
    by (auto simp: handleSendMessage_suspended_def Let_def split: if_splits)
  from createOrUpdateCustomer_effects [of cfg w "customerId st" em ?st1]
  obtain es where "effects (state_of (createOrUpdateCustomer cfg w (customerId st) em ?st1)) =
                     effects ?st1 @ [?req] @ es"
    by blast
  from initializeNewConversation_effects [OF this]
  obtain es' where i: "effects (state_of ?init) = effects ?st1 @ ([?req] @ es) @ es'"
    by blast
  have m: "messages (state_of ?init) = messages ?st1"
    by simp
  have e: "\<exists>es''. effects (state_of (handleSendMessage cfg h w d em st)) =
                   effects (state_of ?init) @ es''"
    using go
    by (cases ?init)
       (auto simp: handleSendMessage_def Let_def emit_def issue_def split: option.splits)
  have m': "messages (state_of (handleSendMessage cfg h w d em st)) = messages (state_of ?init)"
    using go
    by (cases ?init)
       (auto simp: handleSendMessage_def Let_def split: option.splits)
  from e i sv have "\<exists>es. effects (state_of (handleSendMessage cfg h w d em st)) = effects s @ es"
    by (auto simp: issue_def)
  moreover from m m' sv have "messages s = messages (state_of (handleSendMessage cfg h w d em st))"
    by simp
  moreover from sv have "isSending s = isSending st" by simp
  ultimately show ?thesis by blast
qed

text \<open>
  Claim C7. The half of the claim about a draft with neither body nor attachment holds
  (\<open>handleSendMessage_skips\<close>). The half about a send in flight does not hold of the code:
  \<^verbatim>\<open>isSending\<close> is read by the guard and set by no handler, so it is false in every state
  reached from the initial one; and while the first send of a visitor is suspended at its
  \<^verbatim>\<open>await\<close>, a second send is not rejected: it appends a second optimistic entry and is
  suspended in turn, and run to its end it asks the backend for another customer and another
  conversation, pushes the message and notifies the host page.
\<close>

theorem send_in_flight_not_rejected:
  "isSending (run cfg h evs initial_state) = False \<and>
   handleSendMessage_suspended cfg_ex h_ex w_ex draft_hello Undefined initial_state =
     Some st_in_flight \<and>
   isSending st_in_flight = False \<and>
   messages st_in_flight = [optimistic_hello\<lparr>customer_id := Null\<rparr>] \<and>
   map_option messages
       (handleSendMessage_suspended cfg_ex h_ex w_later draft_hello Undefined st_in_flight) =
     Some [optimistic_hello\<lparr>customer_id := Null\<rparr>,
           optimistic_hello\<lparr>customer_id := Null, sent_at := Str ''2020-10-01T12:00:00.400Z''\<rparr>] \<and>
   messages (state_of (handleSendMessage cfg_ex h_ex w_later draft_hello Undefined st_in_flight)) =
     [optimistic_hello\<lparr>customer_id := Null\<rparr>,
      optimistic_hello\<lparr>customer_id := Null, sent_at := Str ''2020-10-01T12:00:00.400Z''\<rparr>] \<and>
   effects (state_of (handleSendMessage cfg_ex h_ex w_later draft_hello Undefined st_in_flight)) =
     effects st_in_flight @
     [ScrollIntoView, Api (CreateNewCustomer None),
      Emit ''customer:created'' (PCustomerId (Str ''C1'')),
      Api (CreateNewConversation (Str ''C1'')),
      ChannelJoin \<lparr>topic = ''conversation:conv1'', join_customer_id = Str ''C1''\<rparr>,
      Emit ''conversation:join'' (PJoin (Str ''conv1'') (Str ''C1'')), ScrollIntoView,
      ChannelPush \<lparr>topic = ''conversation:conv1'', join_customer_id = Str ''C1''\<rparr> ''shout''
        (PShout (draft_hello\<lparr>customer_id := Str ''C1'',
                             sent_at := Str ''2020-10-01T12:00:00.400Z''\<rparr>)),
      Emit ''message:sent''
        (PSent (draft_hello\<lparr>msg_type := Str ''customer'',
                            sent_at := Str ''2020-10-01T12:00:00.400Z'',
                            customer_id := Str ''C1''\<rparr>) (Str ''conv1''))]"
proof -
  have a: "isSending (run cfg h evs initial_state) = False"
    by (simp add: isSending_run initial_state_def)
  have b: "handleSendMessage_suspended cfg_ex h_ex w_ex draft_hello Undefined initial_state =
             Some st_in_flight"
    by (simp add: handleSendMessage_suspended_def isMissingBody_def isMissingAttachments_def
          trim_def is_whitespace_def utf16_def Let_def scrollIntoView_def issue_def
          initial_state_def st_in_flight_def draft_hello_def optimistic_hello_def w_ex_def
          h_ex_def cfg_ex_def)
  have c: "isSending st_in_flight = False"
    "messages st_in_flight = [optimistic_hello\<lparr>customer_id := Null\<rparr>]"
    by (simp_all add: st_in_flight_def initial_state_def)
  have d: "state_of (handleSendMessage cfg_ex h_ex w_later draft_hello Undefined st_in_flight) =
     st_in_flight
       \<lparr>messages := [optimistic_hello\<lparr>customer_id := Null\<rparr>,
          optimistic_hello\<lparr>customer_id := Null, sent_at := Str ''2020-10-01T12:00:00.400Z''\<rparr>],
        customerId := Str ''C1'', conversationId := Str ''conv1'',
        channel := Some \<lparr>topic = ''conversation:conv1'', join_customer_id = Str ''C1''\<rparr>,
        effects := effects st_in_flight @
          [ScrollIntoView, Api (CreateNewCustomer None),
           Emit ''customer:created'' (PCustomerId (Str ''C1'')),
           Api (CreateNewConversation (Str ''C1'')),
           ChannelJoin \<lparr>topic = ''conversation:conv1'', join_customer_id = Str ''C1''\<rparr>,
           Emit ''conversation:join'' (PJoin (Str ''conv1'') (Str ''C1'')), ScrollIntoView,
           ChannelPush \<lparr>topic = ''conversation:conv1'', join_customer_id = Str ''C1''\<rparr> ''shout''
             (PShout (draft_hello\<lparr>customer_id := Str ''C1'',
                                  sent_at := Str ''2020-10-01T12:00:00.400Z''\<rparr>)),
           Emit ''message:sent''
             (PSent (draft_hello\<lparr>msg_type := Str ''customer'',
                                 sent_at := Str ''2020-10-01T12:00:00.400Z'',
                                 customer_id := Str ''C1''\<rparr>) (Str ''conv1''))]\<rparr>"
    by (simp add: handleSendMessage_def initializeNewConversation_def createOrUpdateCustomer_def
          joinConversationChannel_def isMissingBody_def isMissingAttachments_def trim_def
          is_whitespace_def utf16_def Let_def scrollIntoView_def emit_def issue_def
          initial_state_def st_in_flight_def draft_hello_def optimistic_hello_def w_later_def
          w_ex_def h_ex_def cfg_ex_def)
  have e: "map_option messages
       (handleSendMessage_suspended cfg_ex h_ex w_later draft_hello Undefined st_in_flight) =
     Some [optimistic_hello\<lparr>customer_id := Null\<rparr>,
           optimistic_hello\<lparr>customer_id := Null, sent_at := Str ''2020-10-01T12:00:00.400Z''\<rparr>]"
    by (simp add: handleSendMessage_suspended_def isMissingBody_def isMissingAttachments_def
          trim_def is_whitespace_def utf16_def Let_def scrollIntoView_def issue_def
          initial_state_def st_in_flight_def draft_hello_def optimistic_hello_def w_later_def
          w_ex_def h_ex_def cfg_ex_def)
  from a b c e show ?thesis
    unfolding d by simp
qed

theorem send_in_flight_not_rejected_witness:
  "isSending (run cfg_ex h_ex
      [(w_ex, SendMessage draft_hello Undefined), (w_later, SendMessage draft_hello Undefined)]
      initial_state) = False \<and>
   state_of (handleSendMessage cfg_ex h_ex w_later draft_hello Undefined st_in_flight) \<noteq>
     st_in_flight"
proof -
  note t = send_in_flight_not_rejected [of cfg_ex h_ex
      "[(w_ex, SendMessage draft_hello Undefined), (w_later, SendMessage draft_hello Undefined)]"]
  from t have "messages (state_of (handleSendMessage cfg_ex h_ex w_later draft_hello Undefined
                  st_in_flight)) \<noteq> messages st_in_flight"
    by simp
  then have "state_of (handleSendMessage cfg_ex h_ex w_later draft_hello Undefined st_in_flight) \<noteq>
               st_in_flight"
    by auto
  with t show ?thesis by blast
qed


section \<open>One entry per sent message\<close>

lemma distinct_replace_key:
  "distinct (filter is_str K) \<Longrightarrow> is_str t \<Longrightarrow>
   (is_str k' \<and> k' \<in> set K \<longrightarrow> k' = t) \<Longrightarrow>
   distinct (filter is_str (map (\<lambda>k. if k = t then k' else k) K))"
proof (induction K)
  case Nil
  then show ?case by simp
next
  case (Cons k K)
  from Cons.prems(1) have dK: "distinct (filter is_str K)"
    by (simp split: if_splits)
  from Cons.prems(3) have kK: "is_str k' \<and> k' \<in> set K \<longrightarrow> k' = t"
    by simp
  have ih: "distinct (filter is_str (map (\<lambda>k. if k = t then k' else k) K))"
    using dK Cons.prems(2) kK by (rule Cons.IH)
  show ?case
  proof (cases "k = t")
    case True
    with Cons.prems(1,2) have tK: "t \<notin> set K" by simp
    then have same: "map (\<lambda>k. if k = t then k' else k) K = K"
      by (induction K) auto
    from kK tK have "is_str k' \<Longrightarrow> k' \<notin> set K" by auto
    with dK True same show ?thesis by simp
  next
    case False
    have "is_str k \<Longrightarrow> k \<notin> set (map (\<lambda>k. if k = t then k' else k) K)"
    proof
      assume sk: "is_str k" and "k \<in> set (map (\<lambda>k. if k = t then k' else k) K)"
      then obtain x where x: "x \<in> set K" "k = (if x = t then k' else x)" by auto
      show False
      proof (cases "x = t")
        case True
        with x have "k = k'" by simp
        with sk Cons.prems(3) have "k = t" by simp
        with False show False by simp
      next
        case xt: False
        with x have "k \<in> set K" by simp
        with sk Cons.prems(1) show False by simp
      qed
    qed
    with ih False show ?thesis by simp
  qed
qed

lemma stamp_seen_sent_at: "map sent_at (stamp_seen clock i ms) = map sent_at ms"
  by (induction ms arbitrary: i) auto

lemma stamp_seen_stamped:
  "optimistic_stamped ms \<Longrightarrow> optimistic_stamped (stamp_seen clock i ms)"
  by (induction ms arbitrary: i) (auto simp: optimistic_stamped_def)

lemma stamp_seen_ok: "timeline_ok ms \<Longrightarrow> timeline_ok (stamp_seen clock i ms)"
  by (simp add: timeline_ok_def unique_sent_def stamp_seen_sent_at stamp_seen_stamped)

lemma markMessagesAsSeen_ok:
  "timeline_ok (messages st) \<Longrightarrow> timeline_ok (messages (markMessagesAsSeen w st))"
  using markMessagesAsSeen_messages [of w st] stamp_seen_ok [of "messages st" "now w" 0]
  by auto

lemma reconcile_ok:
  assumes ok: "timeline_ok msgs"
    and c: "truthy (created_at m)"
    and o: "\<forall>x \<in> set msgs. is_str (sent_at m) \<and> sent_at x = sent_at m \<longrightarrow>
              find (is_unsent h m) msgs = Some x"
  shows "timeline_ok (reconcile h m msgs)"
proof (cases "find (is_unsent h m) msgs")
  case None
  with o have "is_str (sent_at m) \<Longrightarrow> sent_at m \<notin> set (map sent_at msgs)" by auto
  with ok c None show ?thesis
    by (auto simp: timeline_ok_def unique_sent_def optimistic_stamped_def reconcile_def)
next
  case (Some u)
  then have un: "is_unsent h m u" and mem: "u \<in> set msgs"
    by (auto simp: find_Some_iff)
  from ok mem un have t: "is_str (sent_at u)"
    by (auto simp: timeline_ok_def optimistic_stamped_def list_all_iff is_unsent_def)
  have k: "is_str (sent_at m) \<and> sent_at m \<in> set (map sent_at msgs) \<longrightarrow> sent_at m = sent_at u"
    using o Some by auto
  have keys: "map sent_at (reconcile h m msgs) =
                map (\<lambda>k. if k = sent_at u then sent_at m else k) (map sent_at msgs)"
    using Some by (simp add: reconcile_def comp_def if_distrib)
  from ok have "distinct (filter is_str (map sent_at msgs))"
    by (simp add: timeline_ok_def unique_sent_def)
  from distinct_replace_key [OF this t k]
  have u: "unique_sent (reconcile h m msgs)"
    by (simp add: unique_sent_def keys)
  from ok c Some have "optimistic_stamped (reconcile h m msgs)"
    by (auto simp: timeline_ok_def optimistic_stamped_def reconcile_def list_all_iff)
  with u show ?thesis by (simp add: timeline_ok_def)
qed

lemma handleNewMessage_ok:
  assumes ok: "timeline_ok (messages st)"
    and c: "truthy (created_at m)"
    and o: "\<forall>x \<in> set (messages st). is_str (sent_at m) \<and> sent_at x = sent_at m \<longrightarrow>
              find (is_unsent h m) (messages st) = Some x"
  shows "timeline_ok (messages (handleNewMessage h w m st))"
proof -
  have r: "timeline_ok (reconcile h m (messages st))"
    using ok c o by (rule reconcile_ok)
  let ?st2 = "scrollIntoView ((emit ''message:received'' (PMessage m) st)
                \<lparr>messages := reconcile h m (messages st)\<rparr>)"
  from r have "timeline_ok (messages ?st2)" by simp
  then have "timeline_ok (messages (markMessagesAsSeen w ?st2))"
    by (rule markMessagesAsSeen_ok)
  with r handleNewMessage_messages [of h w m st] show ?thesis by auto
qed

lemma step_ok:
  assumes ok: "timeline_ok (messages st)" and o: "orderly h w ev st"
  shows "timeline_ok (messages (step cfg h w ev st))"
proof (cases ev)
  case (FetchLatest cached md)
  with o show ?thesis by simp
next
  case (SendMessage d em)
  with o have fresh: "Str (now w 0) \<notin> set (map sent_at (messages st))" by simp
  with ok have "timeline_ok (messages st @ [d\<lparr>customer_id := customerId st,
      msg_type := Str ''customer'', sent_at := Str (now w 0)\<rparr>])"
    by (auto simp: timeline_ok_def unique_sent_def optimistic_stamped_def)
  with handleSendMessage_messages [of cfg h w d em st] ok SendMessage show ?thesis
    by auto
next
  case (Shout m)
  with o have c: "truthy (created_at m)"
    and a: "\<forall>x \<in> set (messages (st\<lparr>isGameMode := False\<rparr>)).
              is_str (sent_at m) \<and> sent_at x = sent_at m \<longrightarrow>
              find (is_unsent h m) (messages (st\<lparr>isGameMode := False\<rparr>)) = Some x"
    by (simp_all add: list_all_iff)
  from ok have "timeline_ok (messages (st\<lparr>isGameMode := False\<rparr>))" by simp
  from handleNewMessage_ok [OF this c a, of w] Shout show ?thesis
    by (simp add: onShout_def)
next
  case VisibilityChange
  with handleVisibilityChange_cases [of w st] markMessagesAsSeen_ok [OF ok, of w] ok
  show ?thesis by auto
next
  case (ToggleDisplay b)
  let ?st1 = "st\<lparr>isOpen := b, isTransitioning := False\<rparr>"
  from ok have ok1: "timeline_ok (messages ?st1)" by simp
  with handleVisibilityChange_cases [of w ?st1] markMessagesAsSeen_ok [OF ok1, of w]
  have "timeline_ok (messages (handleVisibilityChange w ?st1))"
    by auto
  with ToggleDisplay show ?thesis by (cases b) (simp_all add: handleToggleDisplay_def Let_def)
qed

lemma run_ok:
  "timeline_ok (messages st) \<Longrightarrow> orderly_run cfg h evs st \<Longrightarrow>
   timeline_ok (messages (run cfg h evs st))"
proof (induction evs arbitrary: st)
  case Nil
  then show ?case by simp
next
  case (Cons e evs)
  obtain w ev where e: "e = (w, ev)" by (cases e)
  with Cons.prems have o: "orderly h w ev st"
    and r: "orderly_run cfg h evs (step cfg h w ev st)" by simp_all
  from step_ok [OF Cons.prems(1) o, of cfg] have "timeline_ok (messages (step cfg h w ev st))" .
  from Cons.IH [OF this r] e show ?case by simp
qed

lemma distinct_map_pair: "distinct (map f xs) \<Longrightarrow> distinct (map (\<lambda>x. (f x, g x)) xs)"
  by (induction xs) auto

lemma unique_sent_pairs: "unique_sent msgs \<Longrightarrow> unique_pairs msgs"
proof -
  assume "unique_sent msgs"
  then have "distinct (map sent_at (filter (\<lambda>m. is_str (sent_at m)) msgs))"
    by (simp add: unique_sent_def filter_map comp_def)
  then show ?thesis
    unfolding unique_pairs_def by (rule distinct_map_pair)
qed

lemma replace_one_slot:
  "distinct (filter is_str (map f xs)) \<Longrightarrow> i < length xs \<Longrightarrow> is_str (f (xs ! i)) \<Longrightarrow>
   map (\<lambda>x. if f x = f (xs ! i) then m else x) xs = xs[i := m]"
proof (induction xs arbitrary: i)
  case Nil
  then show ?case by simp
next
  case (Cons x xs)
  show ?case
  proof (cases i)
    case 0
    with Cons.prems have sx: "is_str (f x)"
      and nx: "f x \<notin> set (filter is_str (map f xs))" by simp_all
    have "\<forall>y \<in> set xs. f y \<noteq> f x"
    proof (intro ballI notI)
      fix y assume "y \<in> set xs" "f y = f x"
      then have "f x \<in> f ` set xs" by (metis imageI)
      with sx nx show False by simp
    qed
    then have "map (\<lambda>y. if f y = f x then m else y) xs = xs"
      by (induction xs) auto
    with 0 show ?thesis by simp
  next
    case (Suc k)
    with Cons.prems have k: "k < length xs" and sk: "is_str (f (xs ! k))" by simp_all
    from Cons.prems(1) have d: "distinct (filter is_str (map f xs))"
      by (simp split: if_splits)
    from k sk have "f (xs ! k) \<in> set (filter is_str (map f xs))" by simp
    with Cons.prems(1) sk have "f x \<noteq> f (xs ! k)" by (auto split: if_splits)
    with Cons.IH [OF d k sk] Suc show ?thesis by simp
  qed
qed

lemma reconcile_one_slot:
  assumes ok: "timeline_ok msgs" and f: "find (is_unsent h m) msgs = Some u"
  shows "\<exists>i<length msgs. msgs ! i = u \<and> reconcile h m msgs = msgs[i := m]"
proof -
  from f obtain i where i: "i < length msgs" "is_unsent h m (msgs ! i)" "u = msgs ! i"
    unfolding find_Some_iff by blast
  from ok i have s: "is_str (sent_at (msgs ! i))"
    by (auto simp: timeline_ok_def optimistic_stamped_def list_all_iff is_unsent_def)
  from ok have "distinct (filter is_str (map sent_at msgs))"
    by (simp add: timeline_ok_def unique_sent_def)
  from replace_one_slot [OF this i(1) s, of m] f i(3)
  have "reconcile h m msgs = msgs[i := m]"
    by (simp add: reconcile_def)
  with i show ?thesis by blast
qed

text \<open>
  Claim C2, as stated, fails: \<open>handleSendMessage\<close> appends without looking for an entry with
  the same \<^verbatim>\<open>sent_at\<close> and body (and \<^verbatim>\<open>isSending\<close> is never set), so two sends of the same
  draft at one clock reading, which has millisecond resolution, leave two entries with the
  same pair; the echo that follows then sits in both slots.
\<close>

theorem double_send_counterexample:
  "messages (run cfg_ex h_ex
      [(w_ex, SendMessage draft_hello Undefined), (w_ex, SendMessage draft_hello Undefined)]
      initial_state) =
     [optimistic_hello\<lparr>customer_id := Null\<rparr>, optimistic_hello] \<and>
   \<not> distinct (map (\<lambda>m. (sent_at m, body m))
       (messages (run cfg_ex h_ex
          [(w_ex, SendMessage draft_hello Undefined), (w_ex, SendMessage draft_hello Undefined)]
          initial_state))) \<and>
   messages (run cfg_ex h_ex
      [(w_ex, SendMessage draft_hello Undefined), (w_ex, SendMessage draft_hello Undefined),
       (w_ex, Shout echo_hello)]
      initial_state) =
     [echo_hello, echo_hello]"
proof -
  have one: "step cfg_ex h_ex w_ex (SendMessage draft_hello Undefined) initial_state =
     \<lparr>messages = [optimistic_hello\<lparr>customer_id := Null\<rparr>],
      customerId = Str ''C1'', conversationId = Str ''conv1'',
      isSending = False, isOpen = False, isTransitioning = False, isGameMode = False,
      channel = Some \<lparr>topic = ''conversation:conv1'', join_customer_id = Str ''C1''\<rparr>,
      effects =
        [ScrollIntoView, Api (CreateNewCustomer None),
         Emit ''customer:created'' (PCustomerId (Str ''C1'')),
         Api (CreateNewConversation (Str ''C1'')),
         ChannelJoin \<lparr>topic = ''conversation:conv1'', join_customer_id = Str ''C1''\<rparr>,
         Emit ''conversation:join'' (PJoin (Str ''conv1'') (Str ''C1'')), ScrollIntoView,
         ChannelPush \<lparr>topic = ''conversation:conv1'', join_customer_id = Str ''C1''\<rparr> ''shout''
           (PShout (draft_hello\<lparr>customer_id := Str ''C1'',
                                sent_at := Str ''2020-10-01T12:00:00.000Z''\<rparr>)),
         Emit ''message:sent''
           (PSent (draft_hello\<lparr>msg_type := Str ''customer'',
                               sent_at := Str ''2020-10-01T12:00:00.000Z'',
                               customer_id := Str ''C1''\<rparr>) (Str ''conv1''))]\<rparr>"
    by (simp add: handleSendMessage_def initializeNewConversation_def createOrUpdateCustomer_def
          joinConversationChannel_def isMissingBody_def isMissingAttachments_def trim_def
          is_whitespace_def utf16_def Let_def scrollIntoView_def emit_def issue_def initial_state_def
          draft_hello_def optimistic_hello_def w_ex_def h_ex_def cfg_ex_def)
  have two: "messages (step cfg_ex h_ex w_ex (SendMessage draft_hello Undefined)
               (step cfg_ex h_ex w_ex (SendMessage draft_hello Undefined) initial_state)) =
             [optimistic_hello\<lparr>customer_id := Null\<rparr>, optimistic_hello]"
    unfolding one
    by (simp add: handleSendMessage_def isMissingBody_def isMissingAttachments_def trim_def
          is_whitespace_def utf16_def Let_def scrollIntoView_def emit_def issue_def
          draft_hello_def optimistic_hello_def w_ex_def h_ex_def)
  have three: "reconcile h_ex echo_hello [optimistic_hello\<lparr>customer_id := Null\<rparr>, optimistic_hello] =
                 [echo_hello, echo_hello]"
    by (simp add: reconcile_def is_unsent_def h_ex_def echo_hello_def optimistic_hello_def
          draft_hello_def)
  have nm: "\<not> shouldMarkAsSeen w_ex st echo_hello \<and> \<not> shouldMarkAsSeen w_ex st' echo_hello" for st st'
    by (simp add: shouldMarkAsSeen_def echo_hello_def)
  have four: "messages (handleNewMessage h_ex w_ex echo_hello st) =
                reconcile h_ex echo_hello (messages st)" for st
    using handleNewMessage_messages [of h_ex w_ex echo_hello st]
    by (simp add: handleNewMessage_def Let_def shouldMarkAsSeen_def echo_hello_def)
  show ?thesis
    using two three four
    by (simp add: onShout_def)
qed

text \<open>
  Claim C2, amended. Take a timeline in which every \<^verbatim>\<open>sent_at\<close> string is on at most one entry
  and every optimistic entry has one, and a sequence of sends, inbound messages, visibility
  changes and toggles in which every send reads a clock value that is on no entry yet and
  every inbound message has \<^verbatim>\<open>created_at\<close> and shares its \<^verbatim>\<open>sent_at\<close> string with no entry but
  the optimistic entry it is reconciled with. Then the reached timeline has the same two
  properties, at most one entry per (\<^verbatim>\<open>sent_at\<close>, body) pair among the entries with a \<^verbatim>\<open>sent_at\<close>
  string, and an inbound message that matches an optimistic entry overwrites exactly that one
  slot.
\<close>

theorem reachable_unique_pairs:
  assumes "unique_sent (messages st)" "optimistic_stamped (messages st)"
    and "orderly_run cfg h evs st"
  shows "unique_sent (messages (run cfg h evs st)) \<and>
         optimistic_stamped (messages (run cfg h evs st)) \<and>
         unique_pairs (messages (run cfg h evs st)) \<and>
         (\<forall>m u. find (is_unsent h m) (messages (run cfg h evs st)) = Some u \<longrightarrow>
            (\<exists>i < length (messages (run cfg h evs st)).
               messages (run cfg h evs st) ! i = u \<and>
               reconcile h m (messages (run cfg h evs st)) = (messages (run cfg h evs st))[i := m]))"
proof -
  from assms have ok: "timeline_ok (messages (run cfg h evs st))"
    by (intro run_ok) (simp_all add: timeline_ok_def)
  then have "unique_sent (messages (run cfg h evs st)) \<and>
         optimistic_stamped (messages (run cfg h evs st)) \<and>
         unique_pairs (messages (run cfg h evs st))"
    by (simp add: timeline_ok_def unique_sent_pairs)
  moreover from ok have "\<forall>m u. find (is_unsent h m) (messages (run cfg h evs st)) = Some u \<longrightarrow>
            (\<exists>i < length (messages (run cfg h evs st)).
               messages (run cfg h evs st) ! i = u \<and>
               reconcile h m (messages (run cfg h evs st)) = (messages (run cfg h evs st))[i := m])"
    using reconcile_one_slot [of "messages (run cfg h evs st)" h] by blast
  ultimately show ?thesis by blast
qed

theorem reachable_unique_pairs_witness:
  "messages (run cfg_ex h_ex [(w_ex, SendMessage draft_hello Undefined), (w_ex, Shout echo_hello)]
               (st_joined\<lparr>messages := getDefaultGreeting cfg_ex w_ex\<rparr>)) =
     getDefaultGreeting cfg_ex w_ex @ [echo_hello] \<and>
   unique_pairs (messages (run cfg_ex h_ex
       [(w_ex, SendMessage draft_hello Undefined), (w_ex, Shout echo_hello)]
       (st_joined\<lparr>messages := getDefaultGreeting cfg_ex w_ex\<rparr>)))"
proof -
  let ?st = "st_joined\<lparr>messages := getDefaultGreeting cfg_ex w_ex\<rparr>"
  let ?evs = "[(w_ex, SendMessage draft_hello Undefined), (w_ex, Shout echo_hello)]"
  have sent: "messages (step cfg_ex h_ex w_ex (SendMessage draft_hello Undefined) ?st) =
                getDefaultGreeting cfg_ex w_ex @ [optimistic_hello]"
    by (simp add: handleSendMessage_def isMissingBody_def isMissingAttachments_def trim_def
          is_whitespace_def utf16_def Let_def scrollIntoView_def emit_def issue_def st_joined_def
          initial_state_def draft_hello_def optimistic_hello_def w_ex_def h_ex_def)
  have rec: "reconcile h_ex echo_hello (getDefaultGreeting cfg_ex w_ex @ [optimistic_hello]) =
               getDefaultGreeting cfg_ex w_ex @ [echo_hello]"
    by (simp add: reconcile_def is_unsent_def h_ex_def echo_hello_def optimistic_hello_def
          draft_hello_def getDefaultGreeting_def cfg_ex_def)
  have recv: "messages (handleNewMessage h_ex w_ex echo_hello st) =
                reconcile h_ex echo_hello (messages st)" for st
    by (simp add: handleNewMessage_def Let_def shouldMarkAsSeen_def echo_hello_def)
  have m: "messages (run cfg_ex h_ex ?evs ?st) = getDefaultGreeting cfg_ex w_ex @ [echo_hello]"
    using sent rec recv by (simp add: onShout_def)
  have a: "unique_sent (messages ?st)" "optimistic_stamped (messages ?st)"
    by (simp_all add: unique_sent_def optimistic_stamped_def getDefaultGreeting_def cfg_ex_def
          w_ex_def)
  have o1: "orderly h_ex w_ex (SendMessage draft_hello Undefined) ?st"
    by (simp add: getDefaultGreeting_def cfg_ex_def)
  have fnd: "find (is_unsent h_ex echo_hello) (getDefaultGreeting cfg_ex w_ex @ [optimistic_hello]) =
               Some optimistic_hello"
    by (simp add: is_unsent_def h_ex_def echo_hello_def optimistic_hello_def
          draft_hello_def getDefaultGreeting_def cfg_ex_def w_ex_def)
  have o2: "orderly h_ex w_ex (Shout echo_hello)
              (step cfg_ex h_ex w_ex (SendMessage draft_hello Undefined) ?st)"
    unfolding orderly.simps sent fnd
    by (simp add: getDefaultGreeting_def cfg_ex_def echo_hello_def optimistic_hello_def
          draft_hello_def)
  from o1 o2 have o: "orderly_run cfg_ex h_ex ?evs ?st" by simp
  from reachable_unique_pairs [OF a o] m show ?thesis by simp
qed


end
